theory Spec2Isabelle
  imports Complex_Main "HOL-Library.Sublist"
begin

section \<open>Python values\<close>

text \<open>
  A Python \<open>str\<close> is a sequence of Unicode code points, and is modelled as the list of
  these code points. A literal of the source is written \<open>py ''...''\<close>.

  A Python \<open>int\<close> is an \<open>int\<close>. A Python \<open>float\<close> is modelled by the real number it
  denotes: the infinities and NaN are outside the model. \<open>int(x)\<close>, \<open>min\<close>, \<open>max\<close> and
  the comparisons are exact on a float, so they are modelled as they are. The sum of two
  floats is rounded: where a sum is truncated to an integer afterwards (the right and
  bottom edges of a bbox), the addition of Python is a parameter of the model. The
  differences and quotients that are only passed on as floats (the vertices of a mask,
  the accuracy and the average confidence) are modelled by the exact ones.
\<close>

type_synonym pystr = "nat list"

abbreviation py :: "string \<Rightarrow> pystr" where
  "py s \<equiv> map of_char s"

text \<open>The exceptions the modelled code raises, by class; a \<open>ValueError\<close> carries its message.\<close>

datatype py_error =
    ValueError pystr
  | RequestException pystr
  | KeyError
  | IndexError
  | TypeError
  | AttributeError
  | OverflowError
  | ZeroDivisionError

text \<open>
  A statement that may raise, followed by the rest of the block: the exception leaves the
  block, the value goes on.
\<close>

fun and_then :: "'e + 'a \<Rightarrow> ('a \<Rightarrow> 'e + 'b) \<Rightarrow> 'e + 'b" where
  "and_then (Inl e) f = Inl e"
| "and_then (Inr x) f = f x"

section \<open>Summary statistics (run_validation.py)\<close>

record validation_entry =
  entry_image_id :: int
  entry_annotation_id :: int
  expected_label :: pystr
  entry_prediction_label :: pystr
  entry_confidence :: real
  is_match :: bool
  entry_rationale :: "pystr option"
  entry_bbox :: "real list option"
  polygon :: "real list list option"

record validation_summary =
  total :: int
  matches :: int
  mismatches :: int
  accuracy :: real
  average_confidence :: real

text \<open>Python's true division \<open>a / b\<close> with an integer divisor: it raises on zero.\<close>

definition truediv :: "real \<Rightarrow> int \<Rightarrow> py_error + real" where
  "truediv a b = (if b = 0 then Inl ZeroDivisionError else Inr (a / of_int b))"

text \<open>
  \<open>_build_summary\<close>. The conditional expressions \<open>x / total if total else 0.0\<close> divide
  only where \<open>total\<close> is truthy.
\<close>

definition build_summary :: "validation_entry list \<Rightarrow> py_error + validation_summary" where
  "build_summary entries =
     (let total = int (length entries);
          matches = sum_list [1. entry \<leftarrow> entries, is_match entry];
          mismatches = total - matches
      in case (if total \<noteq> 0 then truediv (sum_list [entry_confidence entry. entry \<leftarrow> entries]) total
               else Inr 0) of
           Inl e \<Rightarrow> Inl e
         | Inr avg_conf \<Rightarrow>
             (case (if total \<noteq> 0 then truediv (of_int matches) total else Inr 0) of
                Inl e \<Rightarrow> Inl e
              | Inr acc \<Rightarrow>
                  Inr \<lparr>total = total, matches = matches, mismatches = mismatches,
                       accuracy = acc, average_confidence = avg_conf\<rparr>))"

section \<open>Annotations (data_loader.py)\<close>

text \<open>
  The dataclass \<open>Annotation\<close> at its declared field types: \<open>bbox\<close> is
  \<open>Optional[Sequence[float]]\<close> and \<open>segmentation\<close> is
  \<open>Optional[Sequence[Sequence[float]]]\<close>. The field \<open>id\<close> is named \<open>ann_id\<close>. The
  functions of image_utils.py are modelled on annotations of these types; what the
  loader stores in the fields is modelled further down, as the JSON values it reads.
\<close>

record annotation =
  ann_id :: int
  image_id :: int
  category_id :: int
  bbox :: "real list option"
  segmentation :: "real list list option"
  area :: "real option"
  iscrowd :: "int option"

text \<open>\<open>bool(self.segmentation)\<close>: \<open>None\<close> and the empty list are falsy.\<close>

definition has_polygon :: "annotation \<Rightarrow> bool" where
  "has_polygon a = (case segmentation a of None \<Rightarrow> False | Some segs \<Rightarrow> segs \<noteq> [])"

text \<open>\<open>bool(self.bbox) and len(self.bbox) == 4\<close>.\<close>

definition has_bbox :: "annotation \<Rightarrow> bool" where
  "has_bbox a = (case bbox a of None \<Rightarrow> False | Some b \<Rightarrow> b \<noteq> [] \<and> length b = 4)"

section \<open>Images (the operations of PIL that image_utils.py calls)\<close>

text \<open>
  An image of mode RGB or RGBA: its size, its colour bands, and its alpha band when the
  mode is RGBA. The band functions are read at \<open>0 \<le> x < width\<close>, \<open>0 \<le> y < height\<close>.
\<close>

type_synonym rgb = "nat \<times> nat \<times> nat"
type_synonym rgba = "nat \<times> nat \<times> nat \<times> nat"
type_synonym band = "int \<Rightarrow> int \<Rightarrow> nat"

record image =
  width :: int
  height :: int
  pixel :: "int \<Rightarrow> int \<Rightarrow> rgb"
  alpha :: "band option"

definition inside :: "image \<Rightarrow> int \<Rightarrow> int \<Rightarrow> bool" where
  "inside im x y = (0 \<le> x \<and> x < width im \<and> 0 \<le> y \<and> y < height im)"

text \<open>\<open>Image.new("RGB", (w, h), color)\<close> and \<open>Image.new("RGBA", (w, h), color)\<close>.\<close>

definition new_rgb :: "int \<times> int \<Rightarrow> rgb \<Rightarrow> image" where
  "new_rgb sz c = \<lparr>width = fst sz, height = snd sz, pixel = (\<lambda>x y. c), alpha = None\<rparr>"

definition new_rgba :: "int \<times> int \<Rightarrow> rgba \<Rightarrow> image" where
  "new_rgba sz c =
     (case c of (r, g, b, a) \<Rightarrow>
        \<lparr>width = fst sz, height = snd sz, pixel = (\<lambda>x y. (r, g, b)), alpha = Some (\<lambda>x y. a)\<rparr>)"

text \<open>
  \<open>Image.getpixel((x, y))\<close>: the bands at a position of the image, \<open>IndexError\<close>
  outside it.
\<close>

definition getpixel :: "image \<Rightarrow> int \<times> int \<Rightarrow> py_error + rgb \<times> nat option" where
  "getpixel im xy =
     (case xy of (x, y) \<Rightarrow>
        if inside im x y then Inr (pixel im x y, map_option (\<lambda>a. a x y) (alpha im))
        else Inl IndexError)"

text \<open>
  \<open>Image.crop((left, upper, right, lower))\<close>: the half-open region, of size
  \<open>(right - left, lower - upper)\<close>; positions outside the source read as 0. Pillow
  refuses a box whose right edge is left of its left edge, or whose lower edge is above
  its upper edge.
\<close>

definition image_crop :: "image \<Rightarrow> int \<times> int \<times> int \<times> int \<Rightarrow> py_error + image" where
  "image_crop im box =
     (case box of (left, upper, right, lower) \<Rightarrow>
        if right < left then
          Inl (ValueError (py ''Coordinate '' @ [39] @ py ''right'' @ [39] @ py '' is less than ''
                 @ [39] @ py ''left'' @ [39]))
        else if lower < upper then
          Inl (ValueError (py ''Coordinate '' @ [39] @ py ''lower'' @ [39] @ py '' is less than ''
                 @ [39] @ py ''upper'' @ [39]))
        else
          Inr \<lparr>width = right - left, height = lower - upper,
               pixel = (\<lambda>x y. if inside im (left + x) (upper + y) then pixel im (left + x) (upper + y)
                              else (0, 0, 0)),
               alpha = map_option
                 (\<lambda>a. \<lambda>x y. if inside im (left + x) (upper + y) then a (left + x) (upper + y) else 0)
                 (alpha im)\<rparr>)"

text \<open>\<open>Image.convert("RGBA")\<close> of an RGB or RGBA image: an opaque alpha band is added.\<close>

definition convert_rgba :: "image \<Rightarrow> image" where
  "convert_rgba im = (case alpha im of None \<Rightarrow> im\<lparr>alpha := Some (\<lambda>x y. 255)\<rparr> | Some a \<Rightarrow> im)"

text \<open>\<open>Image.putalpha(mask)\<close> with a mask of the image's size.\<close>

definition putalpha :: "image \<Rightarrow> band \<Rightarrow> image" where
  "putalpha im msk = im\<lparr>alpha := Some msk\<rparr>"

text \<open>
  \<open>background.alpha_composite(crop)\<close> for two RGBA images of one size: the background
  keeps its size, and each of its pixels becomes the blend of that pixel with the pixel of
  \<open>crop\<close> over it. The blending formula of Pillow is the parameter \<open>blend\<close>.
\<close>

definition rgba_at :: "image \<Rightarrow> int \<Rightarrow> int \<Rightarrow> rgba" where
  "rgba_at im x y =
     (case pixel im x y of (r, g, b) \<Rightarrow>
        (r, g, b, case alpha im of None \<Rightarrow> 255 | Some a \<Rightarrow> a x y))"

definition alpha_composite :: "(rgba \<Rightarrow> rgba \<Rightarrow> rgba) \<Rightarrow> image \<Rightarrow> image \<Rightarrow> image" where
  "alpha_composite blend background crop =
     background\<lparr>
       pixel := (\<lambda>x y. case blend (rgba_at background x y) (rgba_at crop x y) of (r, g, b, a) \<Rightarrow> (r, g, b)),
       alpha := Some (\<lambda>x y. case blend (rgba_at background x y) (rgba_at crop x y) of (r, g, b, a) \<Rightarrow> a)\<rparr>"

section \<open>Region extraction (image_utils.py)\<close>

record crop_config =
  padding :: int
  mask_polygon :: bool
  background_color :: rgba

text \<open>The defaults of the dataclass \<open>CropConfig\<close>.\<close>

definition default_crop_config :: crop_config where
  "default_crop_config = \<lparr>padding = 0, mask_polygon = True, background_color = (0, 0, 0, 0)\<rparr>"

text \<open>\<open>int(x)\<close> of a number truncates toward zero.\<close>

definition py_int :: "real \<Rightarrow> int" where
  "py_int x = (if 0 \<le> x then \<lfloor>x\<rfloor> else \<lceil>x\<rceil>)"

text \<open>\<open>str(n)\<close> of an integer, as the f-string of the error message renders the id.\<close>

fun str_nat :: "nat \<Rightarrow> pystr" where
  "str_nat n = (if n < 10 then [48 + n] else str_nat (n div 10) @ [48 + n mod 10])"

definition str_int :: "int \<Rightarrow> pystr" where
  "str_int i = (if i < 0 then 45 # str_nat (nat (- i)) else str_nat (nat i))"

text \<open>
  \<open>_polygon_bbox\<close>: the values at even positions of every segment are x coordinates,
  those at odd positions are y coordinates.
\<close>

definition polygon_bbox :: "real list list \<Rightarrow> py_error + real \<times> real \<times> real \<times> real" where
  "polygon_bbox segments =
     (let xs = [v. segment \<leftarrow> segments, (i, v) \<leftarrow> enumerate 0 segment, i mod 2 = 0];
          ys = [v. segment \<leftarrow> segments, (i, v) \<leftarrow> enumerate 0 segment, i mod 2 \<noteq> 0]
      in if xs = [] \<or> ys = [] then Inl (ValueError (py ''Polygon segmentation is empty''))
         else Inr (Min (set xs), Min (set ys), Max (set xs), Max (set ys)))"

text \<open>\<open>_expand_box\<close>.\<close>

definition expand_box ::
  "real \<Rightarrow> real \<Rightarrow> real \<Rightarrow> real \<Rightarrow> int \<Rightarrow> int \<Rightarrow> int \<Rightarrow> int \<times> int \<times> int \<times> int" where
  "expand_box left top' right bottom padding' width' height' =
     (let pad = max 0 padding'
      in (max (py_int left - pad) 0,
          max (py_int top' - pad) 0,
          min (py_int right + pad) width',
          min (py_int bottom + pad) height'))"

text \<open>
  \<open>crop_annotation\<close> is modelled in three stages. \<open>annotation_region\<close> is its
  \<open>if / elif / else\<close> over the geometry of the annotation. (Under \<open>has_bbox\<close> the
  bbox has four elements and the unpacking \<open>x, y, w, h = annotation.bbox\<close> cannot fail:
  the second case of the bbox is never taken.) \<open>fadd x w\<close> is \<open>x + w\<close> as Python
  computes it: the exact sum of two ints, the rounded sum where one of them is a float.
\<close>

definition annotation_region ::
  "(real \<Rightarrow> real \<Rightarrow> real) \<Rightarrow> annotation \<Rightarrow> py_error + real \<times> real \<times> real \<times> real" where
  "annotation_region fadd a =
     (if has_bbox a then
        (case bbox a of
           Some [x, y, w, h] \<Rightarrow> Inr (x, y, fadd x w, fadd y h)
         | _ \<Rightarrow> Inl TypeError)
      else if has_polygon a then
        polygon_bbox (case segmentation a of None \<Rightarrow> [] | Some segs \<Rightarrow> segs)
      else
        Inl (ValueError (py ''Annotation '' @ str_int (ann_id a) @ py '' missing bbox and polygon'')))"

text \<open>\<open>crop_window\<close> is the call of \<open>_expand_box\<close> on that region: the box handed to \<open>image.crop\<close>.\<close>

definition crop_window ::
  "(real \<Rightarrow> real \<Rightarrow> real) \<Rightarrow> image \<Rightarrow> annotation \<Rightarrow> crop_config \<Rightarrow> py_error + int \<times> int \<times> int \<times> int" where
  "crop_window fadd im a config =
     (case annotation_region fadd a of
        Inl e \<Rightarrow> Inl e
      | Inr (left, top', right, bottom) \<Rightarrow>
          Inr (expand_box left top' right bottom (padding config) (width im) (height im)))"

text \<open>
  The inner loop of the masking: \<open>for i in range(0, len(segment), 2)\<close> reads
  \<open>segment[i]\<close> and \<open>segment[i + 1]\<close>, and the second read raises \<open>IndexError\<close> at
  the last element of a segment of odd length.
\<close>

fun segment_points :: "real list \<Rightarrow> int \<Rightarrow> int \<Rightarrow> py_error + (real \<times> real) list" where
  "segment_points [] left_i top_i = Inr []"
| "segment_points [x] left_i top_i = Inl IndexError"
| "segment_points (x # y # rest) left_i top_i =
     (case segment_points rest left_i top_i of
        Inl e \<Rightarrow> Inl e
      | Inr points \<Rightarrow> Inr ((x - of_int left_i, y - of_int top_i) # points))"

text \<open>
  The outer loop. \<open>draw\<close> is \<open>ImageDraw.polygon(points, fill=255)\<close> on a mask of mode L
  of the given size: the rasteriser of Pillow is a parameter of the model.
\<close>

type_synonym rasteriser = "int \<times> int \<Rightarrow> band \<Rightarrow> (real \<times> real) list \<Rightarrow> py_error + band"

fun draw_segments ::
  "rasteriser \<Rightarrow> int \<times> int \<Rightarrow> band \<Rightarrow> real list list \<Rightarrow> int \<Rightarrow> int \<Rightarrow> py_error + band" where
  "draw_segments draw sz msk [] left_i top_i = Inr msk"
| "draw_segments draw sz msk (segment # segments) left_i top_i =
     (case segment_points segment left_i top_i of
        Inl e \<Rightarrow> Inl e
      | Inr points \<Rightarrow>
          if points \<noteq> [] then
            (case draw sz msk points of
               Inl e \<Rightarrow> Inl e
             | Inr msk' \<Rightarrow> draw_segments draw sz msk' segments left_i top_i)
          else draw_segments draw sz msk segments left_i top_i)"

text \<open>
  The masking block of \<open>crop_annotation\<close>, from \<open>if annotation.has_polygon() and
  config.mask_polygon\<close> to the \<open>return\<close>: \<open>crop\<close> is the cropped image and
  \<open>(left_i, top_i)\<close> the corner of the crop window.
\<close>

definition mask_crop ::
  "rasteriser \<Rightarrow> (rgba \<Rightarrow> rgba \<Rightarrow> rgba) \<Rightarrow> image \<Rightarrow> annotation \<Rightarrow> crop_config \<Rightarrow> int \<Rightarrow> int
     \<Rightarrow> py_error + image" where
  "mask_crop draw blend crop a config left_i top_i =
     (if has_polygon a \<and> mask_polygon config then
        (case draw_segments draw (width crop, height crop) (\<lambda>x y. 0)
                (case segmentation a of None \<Rightarrow> [] | Some segs \<Rightarrow> segs) left_i top_i of
           Inl e \<Rightarrow> Inl e
         | Inr msk \<Rightarrow>
             (let crop' = putalpha (convert_rgba crop) msk
              in if snd (snd (snd (background_color config))) > 0 then
                   Inr (alpha_composite blend
                          (new_rgba (width crop', height crop') (background_color config))
                          crop')
                 else Inr crop'))
      else Inr crop)"

text \<open>\<open>crop_annotation\<close>; \<open>config\<close> is \<open>None\<close> where the caller leaves it out.\<close>

definition crop_annotation ::
  "rasteriser \<Rightarrow> (rgba \<Rightarrow> rgba \<Rightarrow> rgba) \<Rightarrow> (real \<Rightarrow> real \<Rightarrow> real) \<Rightarrow> image \<Rightarrow> annotation
     \<Rightarrow> crop_config option \<Rightarrow> py_error + image" where
  "crop_annotation draw blend fadd im a config_opt =
     (let config = (case config_opt of None \<Rightarrow> default_crop_config | Some c \<Rightarrow> c)
      in case crop_window fadd im a config of
           Inl e \<Rightarrow> Inl e
         | Inr (left_i, top_i, right_i, bottom_i) \<Rightarrow>
             (case image_crop im (left_i, top_i, right_i, bottom_i) of
                Inl e \<Rightarrow> Inl e
              | Inr crop \<Rightarrow> mask_crop draw blend crop a config left_i top_i))"

text \<open>\<open>Image.size\<close>.\<close>

definition image_size :: "image \<Rightarrow> int \<times> int" where
  "image_size im = (width im, height im)"

subsection \<open>The words of the specification\<close>

text \<open>
  \<open>round(w)\<close>, as the specification writes the size of a crop: Python rounds a half to
  the even neighbour.
\<close>

definition py_round :: "real \<Rightarrow> int" where
  "py_round x =
     (let f = \<lfloor>x\<rfloor>; d = x - of_int f
      in if d < 1 / 2 then f else if 1 / 2 < d then f + 1 else if even f then f else f + 1)"

text \<open>
  The specification of the mask: for each polygon, its vertices (the pairs of
  alternating x and y coordinates) are translated by \<open>(-left, -top)\<close> into the
  coordinates of the crop, and every polygon is filled into the same mask.
\<close>

fun vertices :: "real list \<Rightarrow> (real \<times> real) list" where
  "vertices (x # y # rest) = (x, y) # vertices rest"
| "vertices rest = []"

definition local_polygon :: "int \<Rightarrow> int \<Rightarrow> real list \<Rightarrow> (real \<times> real) list" where
  "local_polygon left_i top_i segment =
     map (\<lambda>(x, y). (x - of_int left_i, y - of_int top_i)) (vertices segment)"

fun fill_polygons :: "rasteriser \<Rightarrow> int \<times> int \<Rightarrow> band \<Rightarrow> (real \<times> real) list list \<Rightarrow> py_error + band" where
  "fill_polygons draw sz msk [] = Inr msk"
| "fill_polygons draw sz msk (p # ps) =
     (if p = [] then fill_polygons draw sz msk ps
      else case draw sz msk p of Inl e \<Rightarrow> Inl e | Inr msk' \<Rightarrow> fill_polygons draw sz msk' ps)"

subsection \<open>Concrete inputs\<close>

text \<open>
  A rasteriser and a blending function for the concrete evaluations: the rasteriser fills
  the bounding box of the points, which is the filled polygon where the polygon is a
  rectangle parallel to the axes; the blending keeps the background under a transparent
  pixel and takes the pixel over it otherwise.
\<close>

definition fill_bounding_box :: rasteriser where
  "fill_bounding_box sz msk points =
     Inr (\<lambda>x y. if Min (set (map fst points)) \<le> of_int x \<and> of_int x \<le> Max (set (map fst points))
                    \<and> Min (set (map snd points)) \<le> of_int y \<and> of_int y \<le> Max (set (map snd points))
                 then 255 else msk x y)"

definition blend_opaque :: "rgba \<Rightarrow> rgba \<Rightarrow> rgba" where
  "blend_opaque dst src = (if snd (snd (snd src)) = 0 then dst else src)"

text \<open>
  The addition of Python where it is exact: on two ints, and on two floats whose sum is
  a float again, as are the sums of the concrete evaluations (\<open>0.75 + 0.25\<close>, and sums
  of small whole numbers).
\<close>

definition exact_sum :: "real \<Rightarrow> real \<Rightarrow> real" where
  "exact_sum x y = x + y"

text \<open>
  The addition of Python at a sum that is rounded. The floats that \<open>0.3\<close> and \<open>0.7\<close>
  denote are \<open>5404319552844595 / 2^54\<close> and \<open>6305039478318694 / 2^53\<close>; their exact sum
  is \<open>1 - 2^-54\<close>, half way between two floats, and \<open>0.3 + 0.7\<close> is \<open>1.0\<close>.
\<close>

definition rounded_sum :: "real \<Rightarrow> real \<Rightarrow> real" where
  "rounded_sum x y = (if x + y = 1 - 1 / 2 ^ 54 then 1 else x + y)"

text \<open>\<open>_create_base_image\<close> of tests/test_image_utils.py: a red square on black.\<close>

definition create_base_image :: image where
  "create_base_image =
     \<lparr>width = 64, height = 64,
      pixel = (\<lambda>x y. if 16 \<le> x \<and> x < 48 \<and> 16 \<le> y \<and> y < 48 then (255, 0, 0) else (0, 0, 0)),
      alpha = None\<rparr>"

text \<open>\<open>Annotation(id, image_id, category_id)\<close> with the defaults of the other fields.\<close>

definition new_annotation :: "int \<Rightarrow> int \<Rightarrow> int \<Rightarrow> annotation" where
  "new_annotation i im c =
     \<lparr>ann_id = i, image_id = im, category_id = c, bbox = None, segmentation = None,
      area = None, iscrowd = None\<rparr>"

section \<open>JSON values\<close>

text \<open>
  What \<open>json.load\<close> returns: \<open>None\<close>, a \<open>bool\<close>, an \<open>int\<close>, a \<open>float\<close>, a \<open>str\<close>, a
  \<open>list\<close> or a \<open>dict\<close> with string keys. A \<open>dict\<close> is the list of its items, each key
  once; a lookup takes the item of the key.
\<close>

datatype json =
    JNull
  | JBool bool
  | JInt int
  | JFloat real
  | JStr pystr
  | JArr "json list"
  | JObj "(pystr \<times> json) list"

text \<open>\<open>bool(v)\<close>, the truth value of \<open>if v\<close> and \<open>if not v\<close>.\<close>

fun truthy :: "json \<Rightarrow> bool" where
  "truthy JNull = False"
| "truthy (JBool b) = b"
| "truthy (JInt i) = (i \<noteq> 0)"
| "truthy (JFloat r) = (r \<noteq> 0)"
| "truthy (JStr s) = (s \<noteq> [])"
| "truthy (JArr xs) = (xs \<noteq> [])"
| "truthy (JObj kvs) = (kvs \<noteq> [])"

text \<open>\<open>v.get(key, default)\<close>: only a \<open>dict\<close> has the method.\<close>

fun dict_get :: "json \<Rightarrow> pystr \<Rightarrow> json \<Rightarrow> py_error + json" where
  "dict_get (JObj kvs) key dflt = Inr (case map_of kvs key of None \<Rightarrow> dflt | Some v \<Rightarrow> v)"
| "dict_get v key dflt = Inl AttributeError"

text \<open>\<open>v[key]\<close> with a string key: \<open>KeyError\<close> on a \<open>dict\<close> without the key, \<open>TypeError\<close> on every other value.\<close>

fun dict_item :: "json \<Rightarrow> pystr \<Rightarrow> py_error + json" where
  "dict_item (JObj kvs) key = (case map_of kvs key of None \<Rightarrow> Inl KeyError | Some v \<Rightarrow> Inr v)"
| "dict_item v key = Inl TypeError"

text \<open>
  \<open>for entry in v\<close>: the elements of a \<open>list\<close>, the keys of a \<open>dict\<close>, the characters
  of a \<open>str\<close>; the other values are not iterable.
\<close>

fun iterate :: "json \<Rightarrow> py_error + json list" where
  "iterate (JArr xs) = Inr xs"
| "iterate (JObj kvs) = Inr (map (\<lambda>kv. JStr (fst kv)) kvs)"
| "iterate (JStr s) = Inr (map (\<lambda>c. JStr [c]) s)"
| "iterate v = Inl TypeError"

text \<open>\<open>isinstance(v, (int, float))\<close>: \<open>bool\<close> is a subclass of \<open>int\<close>.\<close>

fun is_number :: "json \<Rightarrow> bool" where
  "is_number (JInt i) = True"
| "is_number (JFloat r) = True"
| "is_number (JBool b) = True"
| "is_number v = False"

text \<open>The number that a value with \<open>isinstance(v, (int, float))\<close> denotes.\<close>

fun number_value :: "json \<Rightarrow> real" where
  "number_value (JInt i) = of_int i"
| "number_value (JFloat r) = r"
| "number_value (JBool b) = (if b then 1 else 0)"
| "number_value v = 0"

text \<open>\<open>isinstance(v, list)\<close>.\<close>

fun is_list :: "json \<Rightarrow> bool" where
  "is_list (JArr xs) = True"
| "is_list v = False"

text \<open>
  A \<open>dict\<close> whose keys are JSON values, as the list of its items in the order of
  insertion. A \<open>list\<close> or a \<open>dict\<close> cannot be a key; numbers are equal as keys when they
  denote the same number (\<open>1 == 1.0 == True\<close>); storing under a key that is present
  replaces the value of its item.
\<close>

fun hashable :: "json \<Rightarrow> bool" where
  "hashable (JArr xs) = False"
| "hashable (JObj kvs) = False"
| "hashable v = True"

definition key_eq :: "json \<Rightarrow> json \<Rightarrow> bool" where
  "key_eq a b = (if is_number a \<and> is_number b then number_value a = number_value b else a = b)"

definition dict_store :: "(json \<times> 'v) list \<Rightarrow> json \<Rightarrow> 'v \<Rightarrow> py_error + (json \<times> 'v) list" where
  "dict_store d k v =
     (if \<not> hashable k then Inl TypeError
      else if list_ex (\<lambda>item. key_eq (fst item) k) d then
        Inr (map (\<lambda>item. if key_eq (fst item) k then (fst item, v) else item) d)
      else Inr (d @ [(k, v)]))"

text \<open>
  A dict comprehension \<open>{key: value for entry in entries}\<close>, from the dict \<open>d\<close> built so
  far: \<open>item entry\<close> evaluates the key and the value of an entry.
\<close>

fun build_dict ::
  "(json \<Rightarrow> py_error + json \<times> 'v) \<Rightarrow> json list \<Rightarrow> (json \<times> 'v) list \<Rightarrow> py_error + (json \<times> 'v) list" where
  "build_dict item [] d = Inr d"
| "build_dict item (entry # entries) d =
     and_then (item entry) (\<lambda>kv.
     and_then (dict_store d (fst kv) (snd kv)) (\<lambda>d'.
       build_dict item entries d'))"

section \<open>Loading annotations (data_loader.py)\<close>

text \<open>
  The \<open>Category\<close>, \<open>ImageInfo\<close> and \<open>Annotation\<close> objects that \<open>load_coco_dataset\<close>
  builds. The dataclasses do not check the declared types of their fields: each field
  holds the JSON value of the entry (\<open>None\<close> is \<open>JNull\<close>).
\<close>

record loaded_category =
  cat_id :: json
  cat_name :: json
  cat_supercategory :: json

record loaded_image =
  img_id :: json
  img_file_name :: json
  img_width :: json
  img_height :: json
  img_coco_url :: json
  img_flickr_url :: json
  img_license :: json
  img_date_captured :: json

record loaded_annotation =
  raw_id :: json
  raw_image_id :: json
  raw_category_id :: json
  raw_bbox :: json
  raw_segmentation :: json
  raw_area :: json
  raw_iscrowd :: json

text \<open>
  The normalisation of the loop: \<open>if isinstance(segmentation, list) and segmentation and
  isinstance(segmentation[0], (int, float)): segmentation = [segmentation]\<close>.
\<close>

fun normalize_segmentation :: "json \<Rightarrow> json" where
  "normalize_segmentation (JArr (x # xs)) = (if is_number x then JArr [JArr (x # xs)] else JArr (x # xs))"
| "normalize_segmentation v = v"

text \<open>The body of the loop \<open>for entry in coco.get("annotations", [])\<close>.\<close>

definition load_annotation :: "json \<Rightarrow> py_error + loaded_annotation" where
  "load_annotation entry =
     and_then (dict_get entry (py ''segmentation'') JNull) (\<lambda>seg.
     and_then (dict_item entry (py ''id'')) (\<lambda>i.
     and_then (dict_item entry (py ''image_id'')) (\<lambda>im.
     and_then (dict_item entry (py ''category_id'')) (\<lambda>c.
     and_then (dict_get entry (py ''bbox'') JNull) (\<lambda>b.
     and_then (dict_get entry (py ''area'') JNull) (\<lambda>ar.
     and_then (dict_get entry (py ''iscrowd'') JNull) (\<lambda>cr.
       Inr \<lparr>raw_id = i, raw_image_id = im, raw_category_id = c, raw_bbox = b,
            raw_segmentation = normalize_segmentation seg, raw_area = ar, raw_iscrowd = cr\<rparr>)))))))"

text \<open>The loop: the first entry that raises ends the load.\<close>

fun load_entries :: "json list \<Rightarrow> py_error + loaded_annotation list" where
  "load_entries [] = Inr []"
| "load_entries (entry # entries) =
     (case load_annotation entry of
        Inl e \<Rightarrow> Inl e
      | Inr a \<Rightarrow> (case load_entries entries of Inl e \<Rightarrow> Inl e | Inr rest \<Rightarrow> Inr (a # rest)))"

text \<open>\<open>CocoDataset\<close>.\<close>

record coco_dataset =
  categories :: "(json \<times> loaded_category) list"
  images :: "(json \<times> loaded_image) list"
  annotations :: "loaded_annotation list"

text \<open>The key and the value of the two dict comprehensions, for one entry.\<close>

definition load_category :: "json \<Rightarrow> py_error + json \<times> loaded_category" where
  "load_category entry =
     and_then (dict_item entry (py ''id'')) (\<lambda>k.
     and_then (dict_item entry (py ''id'')) (\<lambda>i.
     and_then (dict_item entry (py ''name'')) (\<lambda>n.
     and_then (dict_get entry (py ''supercategory'') JNull) (\<lambda>s.
       Inr (k, \<lparr>cat_id = i, cat_name = n, cat_supercategory = s\<rparr>)))))"

definition load_image :: "json \<Rightarrow> py_error + json \<times> loaded_image" where
  "load_image entry =
     and_then (dict_item entry (py ''id'')) (\<lambda>k.
     and_then (dict_item entry (py ''id'')) (\<lambda>i.
     and_then (dict_item entry (py ''file_name'')) (\<lambda>f.
     and_then (dict_item entry (py ''width'')) (\<lambda>w.
     and_then (dict_item entry (py ''height'')) (\<lambda>h.
     and_then (dict_get entry (py ''coco_url'') JNull) (\<lambda>cu.
     and_then (dict_get entry (py ''flickr_url'') JNull) (\<lambda>fu.
     and_then (dict_get entry (py ''license'') JNull) (\<lambda>l.
     and_then (dict_get entry (py ''date_captured'') JNull) (\<lambda>dc.
       Inr (k, \<lparr>img_id = i, img_file_name = f, img_width = w, img_height = h, img_coco_url = cu,
                img_flickr_url = fu, img_license = l, img_date_captured = dc\<rparr>))))))))))"

text \<open>
  \<open>load_coco_dataset\<close>, from the value \<open>coco\<close> that \<open>json.load\<close> has read from the
  file.
\<close>

definition load_coco_dataset :: "json \<Rightarrow> py_error + coco_dataset" where
  "load_coco_dataset coco =
     and_then (dict_get coco (py ''categories'') (JArr [])) (\<lambda>cv.
     and_then (iterate cv) (\<lambda>category_entries.
     and_then (build_dict load_category category_entries []) (\<lambda>cs.
     and_then (dict_get coco (py ''images'') (JArr [])) (\<lambda>iv.
     and_then (iterate iv) (\<lambda>image_entries.
     and_then (build_dict load_image image_entries []) (\<lambda>ims.
     and_then (dict_get coco (py ''annotations'') (JArr [])) (\<lambda>av.
     and_then (iterate av) (\<lambda>annotation_entries.
     and_then (load_entries annotation_entries) (\<lambda>anns.
       Inr \<lparr>categories = cs, images = ims, annotations = anns\<rparr>)))))))))"

text \<open>
  A stored segmentation read at the declared type of the field, a list of polygons: a
  list whose elements are lists of numbers.
\<close>

fun as_polygon :: "json \<Rightarrow> real list option" where
  "as_polygon (JArr xs) = (if list_all is_number xs then Some (map number_value xs) else None)"
| "as_polygon v = None"

fun as_polygons :: "json \<Rightarrow> real list list option" where
  "as_polygons (JArr ps) = (if list_all (\<lambda>p. as_polygon p \<noteq> None) ps then Some (map (\<lambda>p. the (as_polygon p)) ps) else None)"
| "as_polygons v = None"

definition example_coco :: json where
  "example_coco =
     JObj [(py ''categories'', JArr [JObj [(py ''id'', JInt 1), (py ''name'', JStr (py ''traffic_light''))]]),
           (py ''images'',
              JArr [JObj [(py ''id'', JInt 1), (py ''file_name'', JStr (py ''street.png'')),
                          (py ''width'', JInt 64), (py ''height'', JInt 64)]]),
           (py ''annotations'',
        JArr [JObj [(py ''id'', JInt 1), (py ''image_id'', JInt 1), (py ''category_id'', JInt 1),
                    (py ''segmentation'',
                       JArr [JInt 8, JInt 8, JInt 24, JInt 8, JInt 24, JInt 24, JInt 8, JInt 24])],
              JObj [(py ''id'', JInt 2), (py ''image_id'', JInt 1), (py ''category_id'', JInt 1),
                    (py ''bbox'', JArr [JInt 16, JInt 16, JInt 32, JInt 32]),
                    (py ''segmentation'', JArr [JArr [JInt 1, JInt 1, JFloat (5 / 2), JInt 1, JInt 2, JInt 3]])]])]"

section \<open>Strings\<close>

text \<open>
  The characters that \<open>str.strip()\<close> removes: those of \<open>str.isspace\<close>, by code point.
\<close>

definition isspace :: "nat \<Rightarrow> bool" where
  "isspace c =
     ((9 \<le> c \<and> c \<le> 13) \<or> (28 \<le> c \<and> c \<le> 32) \<or> c = 133 \<or> c = 160 \<or> c = 5760
      \<or> (8192 \<le> c \<and> c \<le> 8202) \<or> c = 8232 \<or> c = 8233 \<or> c = 8239 \<or> c = 8287 \<or> c = 12288)"

definition strip :: "pystr \<Rightarrow> pystr" where
  "strip s = rev (dropWhile isspace (rev (dropWhile isspace s)))"

definition startswith :: "pystr \<Rightarrow> pystr \<Rightarrow> bool" where
  "startswith s p = (take (length p) s = p)"

definition endswith :: "pystr \<Rightarrow> pystr \<Rightarrow> bool" where
  "endswith s p = (length p \<le> length s \<and> drop (length s - length p) s = p)"

section \<open>The verification client (gemini_validator.py)\<close>

record gemini_response =
  prediction_label :: pystr
  confidence :: real
  rationale :: "pystr option"
  raw_text :: pystr

record gemini_validator =
  api_key :: pystr
  model_name :: pystr
  base_url :: pystr
  temperature :: real
  top_p :: "real option"
  max_retries :: int
  timeout_seconds :: int
  prompt_template :: pystr

subsection \<open>Building the request\<close>

text \<open>
  The body of the request: the prompt, the bytes of the crop (which the source encodes
  in base64), and the generation configuration.
\<close>

record request_body =
  body_text :: pystr
  body_image :: "nat list"
  body_temperature :: real
  body_top_p :: "real option"

text \<open>
  \<open>_build_request_body\<close>. \<open>fmt\<close> is \<open>str.format\<close> with the one keyword argument
  \<open>expected_label\<close>: \<open>fmt template label\<close> is
  \<open>template.format(expected_label=label)\<close>, which raises on a template with other
  fields. An absent or empty \<open>guidelines\<close> is falsy.
\<close>

definition build_request_body ::
  "(pystr \<Rightarrow> pystr \<Rightarrow> py_error + pystr) \<Rightarrow> gemini_validator \<Rightarrow> nat list \<Rightarrow> pystr \<Rightarrow> pystr option
     \<Rightarrow> py_error + request_body" where
  "build_request_body fmt v crop_bytes label guidelines =
     (case fmt (prompt_template v) label of
        Inl e \<Rightarrow> Inl e
      | Inr prompt \<Rightarrow>
          Inr \<lparr>body_text =
                 (case guidelines of
                    None \<Rightarrow> prompt
                  | Some g \<Rightarrow>
                      if g \<noteq> [] then prompt @ [10, 10] @ py ''Guidelines:'' @ [10] @ strip g
                      else prompt),
               body_image = crop_bytes,
               body_temperature = temperature v,
               body_top_p = top_p v\<rparr>)"

subsection \<open>Parsing the response\<close>

text \<open>
  \<open>v[0]\<close>: the first element of a \<open>list\<close>, the first character of a \<open>str\<close>; a \<open>dict\<close> of
  JSON has no key \<open>0\<close>, and the other values cannot be subscripted.
\<close>

fun subscript0 :: "json \<Rightarrow> py_error + json" where
  "subscript0 (JArr (x # xs)) = Inr x"
| "subscript0 (JArr []) = Inl IndexError"
| "subscript0 (JStr (c # s)) = Inr (JStr [c])"
| "subscript0 (JStr []) = Inl IndexError"
| "subscript0 (JObj kvs) = Inl KeyError"
| "subscript0 v = Inl TypeError"

text \<open>\<open>v.strip()\<close>: only a \<open>str\<close> has the method.\<close>

fun str_strip :: "json \<Rightarrow> py_error + pystr" where
  "str_strip (JStr s) = Inr (strip s)"
| "str_strip v = Inl AttributeError"

text \<open>
  \<open>float(i)\<close> of an \<open>int\<close>: exact up to 53 bits, rounded to 53 bits (a half to the even
  neighbour) above, and \<open>OverflowError\<close> from \<open>2 ^ 1024\<close> on.
\<close>

fun bit_length :: "nat \<Rightarrow> nat" where
  "bit_length n = (if n = 0 then 0 else Suc (bit_length (n div 2)))"

definition float_of_int :: "int \<Rightarrow> py_error + real" where
  "float_of_int i =
     (let a = nat \<bar>i\<bar>; n = bit_length a
      in if n \<le> 53 then Inr (of_int i)
         else
           (let sh = n - 53; q = a div 2 ^ sh; r = a mod 2 ^ sh; half = 2 ^ (sh - 1);
                q' = (if half < r \<or> (r = half \<and> odd q) then q + 1 else q)
            in if 2 ^ 1024 \<le> q' * 2 ^ sh then Inl OverflowError
               else Inr (of_int (sgn i) * of_nat (q' * 2 ^ sh))))"

text \<open>\<open>float(v)\<close> of a value that passed \<open>isinstance(v, (int, float))\<close>.\<close>

fun py_float :: "json \<Rightarrow> py_error + real" where
  "py_float (JInt i) = float_of_int i"
| "py_float (JFloat r) = Inr r"
| "py_float (JBool b) = Inr (if b then 1 else 0)"
| "py_float v = Inl TypeError"

text \<open>\<open>isinstance(v, str)\<close>.\<close>

fun is_str :: "json \<Rightarrow> bool" where
  "is_str (JStr s) = True"
| "is_str v = False"

text \<open>The characters of a value that passed \<open>isinstance(v, str)\<close>.\<close>

fun str_value :: "json \<Rightarrow> pystr" where
  "str_value (JStr s) = s"
| "str_value v = []"

text \<open>
  \<open>_parse_candidate\<close> is modelled in three stages. \<open>candidate_text\<close> is its first part,
  up to \<open>if not text: raise\<close>: the stripped text of the first part of the first
  candidate.
\<close>

definition candidate_text :: "json \<Rightarrow> py_error + pystr" where
  "candidate_text payload =
     and_then (dict_get payload (py ''candidates'') (JArr [])) (\<lambda>candidates.
     if \<not> truthy candidates then Inl (ValueError (py ''Gemini response missing candidates''))
     else
     and_then (subscript0 candidates) (\<lambda>candidate.
     and_then (dict_get candidate (py ''content'') (JObj [])) (\<lambda>content.
     and_then (dict_get content (py ''parts'') (JArr [])) (\<lambda>parts.
     if \<not> truthy parts then Inl (ValueError (py ''Gemini response missing content parts''))
     else
     and_then (subscript0 parts) (\<lambda>part.
     and_then (dict_get part (py ''text'') (JStr [])) (\<lambda>t.
     and_then (str_strip t) (\<lambda>text.
     if text = [] then Inl (ValueError (py ''Gemini response missing text output''))
     else Inr text)))))))"

text \<open>
  The second part strips the markdown code fence: a leading fence with \<open>json\<close> or
  without, a trailing fence, and the whitespace around what is left. The fence is three
  backquotes (code point 96).
\<close>

definition fence :: pystr where
  "fence = [96, 96, 96]"

definition strip_code_fence :: "pystr \<Rightarrow> pystr" where
  "strip_code_fence text =
     (let text1 = (if startswith text (fence @ py ''json'') then drop 7 text
                   else if startswith text fence then drop 3 text
                   else text);
          text2 = (if endswith text1 fence then take (length text1 - 3) text1 else text1)
      in strip text2)"

text \<open>
  The third part parses the text and checks the fields. \<open>json_loads\<close> is \<open>json.loads\<close>:
  \<open>None\<close> where it raises \<open>JSONDecodeError\<close>.
\<close>

definition parse_text :: "(pystr \<Rightarrow> json option) \<Rightarrow> pystr \<Rightarrow> py_error + gemini_response" where
  "parse_text json_loads text =
     (case json_loads text of
        None \<Rightarrow> Inl (ValueError (py ''Gemini response not valid JSON: '' @ text))
      | Some parsed \<Rightarrow>
          and_then (dict_get parsed (py ''prediction_label'') JNull) (\<lambda>label.
          and_then (dict_get parsed (py ''confidence'') JNull) (\<lambda>conf.
          and_then (dict_get parsed (py ''rationale'') JNull) (\<lambda>rat.
          if \<not> is_str label then Inl (ValueError (py ''Gemini JSON missing prediction_label string''))
          else if \<not> is_number conf then Inl (ValueError (py ''Gemini JSON missing numeric confidence''))
          else
          and_then (py_float conf) (\<lambda>c.
            Inr \<lparr>prediction_label = str_value label, confidence = c,
                 rationale = (if is_str rat then Some (str_value rat) else None),
                 raw_text = text\<rparr>)))))"

definition parse_candidate :: "(pystr \<Rightarrow> json option) \<Rightarrow> json \<Rightarrow> py_error + gemini_response" where
  "parse_candidate json_loads payload =
     and_then (candidate_text payload) (\<lambda>text. parse_text json_loads (strip_code_fence text))"

subsection \<open>Retrying\<close>

text \<open>The exceptions that the \<open>except\<close> clause of \<open>validate_crop\<close> catches.\<close>

fun retryable :: "py_error \<Rightarrow> bool" where
  "retryable (RequestException m) = True"
| "retryable (ValueError m) = True"
| "retryable e = False"

text \<open>
  One pass through the \<open>try\<close> block. \<open>execute n\<close> is what the \<open>n\<close>-th call of
  \<open>_execute_request\<close> does: it returns the payload of the response or raises.
\<close>

definition attempt_once :: "(nat \<Rightarrow> py_error + json) \<Rightarrow> (pystr \<Rightarrow> json option) \<Rightarrow> nat \<Rightarrow> py_error + gemini_response" where
  "attempt_once execute json_loads n = and_then (execute n) (parse_candidate json_loads)"

text \<open>
  The loop \<open>while True\<close> of \<open>validate_crop\<close>, from the state \<open>attempt\<close>. It returns
  the result or the exception that leaves the loop, the number of attempts made, and the
  arguments of the calls of \<open>time.sleep\<close> in order.
\<close>

function validate_loop ::
  "(nat \<Rightarrow> py_error + json) \<Rightarrow> (pystr \<Rightarrow> json option) \<Rightarrow> int \<Rightarrow> nat \<Rightarrow> nat list
     \<Rightarrow> (py_error + gemini_response) \<times> nat \<times> nat list" where
  "validate_loop execute json_loads retries attempt slept =
     (case attempt_once execute json_loads (attempt + 1) of
        Inr response \<Rightarrow> (Inr response, attempt + 1, slept)
      | Inl e \<Rightarrow>
          if retryable e then
            if retries \<le> int (attempt + 1) then (Inl e, attempt + 1, slept)
            else validate_loop execute json_loads retries (attempt + 1)
                   (slept @ [min (2 ^ (attempt + 1 - 1)) 30])
          else (Inl e, attempt + 1, slept))"
  by pat_completeness auto
termination
  by (relation "measure (\<lambda>(execute, json_loads, retries, attempt, slept). nat (retries - int attempt))") auto

text \<open>
  \<open>validate_crop\<close>: the body is built once, and \<open>execute body n\<close> is the \<open>n\<close>-th call of
  \<open>_execute_request\<close> on it.
\<close>

definition validate_crop ::
  "(pystr \<Rightarrow> pystr \<Rightarrow> py_error + pystr) \<Rightarrow> (pystr \<Rightarrow> json option) \<Rightarrow> (request_body \<Rightarrow> nat \<Rightarrow> py_error + json)
     \<Rightarrow> gemini_validator \<Rightarrow> nat list \<Rightarrow> pystr \<Rightarrow> pystr option
     \<Rightarrow> (py_error + gemini_response) \<times> nat \<times> nat list" where
  "validate_crop fmt json_loads execute v crop_bytes label guidelines =
     (case build_request_body fmt v crop_bytes label guidelines of
        Inl e \<Rightarrow> (Inl e, 0, [])
      | Inr body \<Rightarrow> validate_loop (execute body) json_loads (max_retries v) 0 [])"

declare validate_loop.simps [simp del]

subsection \<open>The words of the specification\<close>

text \<open>The backoff after the failed attempt \<open>attempt\<close>: \<open>min(2^(attempt-1), 30)\<close>.\<close>

definition backoff :: "nat \<Rightarrow> nat" where
  "backoff attempt = min (2 ^ (attempt - 1)) 30"

subsection \<open>Concrete inputs\<close>

text \<open>
  The fragment of \<open>str.format\<close> that the templates of the repository use, as an instance
  of \<open>fmt\<close> for the concrete evaluations: literal text, the doubled braces, and the field
  \<open>{expected_label}\<close>. A single brace that opens or closes no field raises
  \<open>ValueError\<close>. Fields of other forms are outside the fragment; they stand as the
  \<open>KeyError\<close> of an unknown field name.
\<close>

fun format_fields :: "pystr \<Rightarrow> pystr \<Rightarrow> py_error + pystr" where
  "format_fields [] label = Inr []"
| "format_fields (c # rest) label =
     (if c = 123 then
        (if rest = [] then
           Inl (ValueError (py ''Single '' @ [39, 123, 39] @ py '' encountered in format string''))
         else if startswith rest [123] then and_then (format_fields (drop 1 rest) label) (\<lambda>s. Inr (123 # s))
         else if startswith rest (py ''expected_label}'') then
           and_then (format_fields (drop 15 rest) label) (\<lambda>s. Inr (label @ s))
         else Inl KeyError)
      else if c = 125 then
        (if startswith rest [125] then and_then (format_fields (drop 1 rest) label) (\<lambda>s. Inr (125 # s))
         else Inl (ValueError (py ''Single '' @ [39, 125, 39] @ py '' encountered in format string'')))
      else and_then (format_fields rest label) (\<lambda>s. Inr (c # s)))"

text \<open>\<open>GeminiValidator(api_key, prompt_template=template)\<close> with the defaults of \<open>__init__\<close>.\<close>

definition new_validator :: "pystr \<Rightarrow> pystr \<Rightarrow> gemini_validator" where
  "new_validator key template =
     \<lparr>api_key = key, model_name = py ''gemini-2.5-flash'',
      base_url = py ''https://generativelanguage.googleapis.com/v1beta'',
      temperature = 2 / 10, top_p = None, max_retries = 3, timeout_seconds = 30,
      prompt_template = template\<rparr>"

text \<open>A payload with one candidate, whose content has one part with the text \<open>t\<close>.\<close>

definition text_payload :: "pystr \<Rightarrow> json" where
  "text_payload t =
     JObj [(py ''candidates'',
            JArr [JObj [(py ''content'', JObj [(py ''parts'', JArr [JObj [(py ''text'', JStr t)]])])]])]"

text \<open>The answer of tests/test_gemini_validator.py, as \<open>json.dumps\<close> writes it, and its value.\<close>

definition example_answer :: pystr where
  \<open>example_answer =
     py ''{"prediction_label": "traffic_light", "confidence": 0.87, "rationale": "Object resembles a traffic light."}''\<close>

definition example_answer_value :: json where
  "example_answer_value =
     JObj [(py ''prediction_label'', JStr (py ''traffic_light'')),
           (py ''confidence'', JFloat (87 / 100)),
           (py ''rationale'', JStr (py ''Object resembles a traffic light.''))]"

text \<open>A transport that raises a timeout at every request.\<close>

definition always_timeout :: "request_body \<Rightarrow> nat \<Rightarrow> py_error + json" where
  "always_timeout body n = Inl (RequestException (py ''timeout''))"

text \<open>A transport that raises a timeout at the first two requests and answers the third.\<close>

definition third_time_lucky :: "request_body \<Rightarrow> nat \<Rightarrow> py_error + json" where
  "third_time_lucky body n =
     (if n < 3 then Inl (RequestException (py ''timeout'')) else Inr (text_payload example_answer))"

section \<open>Properties of the summary\<close>

lemma count_ones: "sum_list [1. entry \<leftarrow> entries, P entry] = int (length (filter P entries))"
  by (induction entries) simp_all

text \<open>
  C8. For every list of entries the summary is computed without a fault; \<open>total\<close> is the
  number of entries, \<open>matches\<close> the number of entries whose match flag is set,
  \<open>mismatches = total - matches\<close>; for a non-empty list \<open>accuracy = matches / total\<close> and
  \<open>average_confidence\<close> is the sum of the confidences over \<open>total\<close>, and for the empty
  list both are 0.
\<close>

theorem build_summary_correct:
  "\<exists>s. build_summary entries = Inr s
     \<and> total s = int (length entries)
     \<and> matches s = int (length (filter is_match entries))
     \<and> mismatches s = total s - matches s
     \<and> (entries \<noteq> [] \<longrightarrow>
          accuracy s = of_int (matches s) / of_int (total s)
        \<and> average_confidence s = (\<Sum>e\<leftarrow>entries. entry_confidence e) / of_int (total s))
     \<and> (entries = [] \<longrightarrow> accuracy s = 0 \<and> average_confidence s = 0)"
proof (cases "entries = []")
  case True
  then show ?thesis
    by (simp add: build_summary_def)
next
  case False
  then have "int (length entries) \<noteq> 0"
    by simp
  then show ?thesis
    using False by (simp add: build_summary_def truediv_def Let_def count_ones)
qed

theorem build_summary_correct_witness:
  "\<exists>s. build_summary
        [\<lparr>entry_image_id = 1, entry_annotation_id = 1, expected_label = py ''cat'',
          entry_prediction_label = py ''cat'', entry_confidence = 1 / 2, is_match = True,
          entry_rationale = None, entry_bbox = None, polygon = None\<rparr>,
         \<lparr>entry_image_id = 1, entry_annotation_id = 2, expected_label = py ''dog'',
          entry_prediction_label = py ''Dog'', entry_confidence = 1, is_match = True,
          entry_rationale = None, entry_bbox = None, polygon = None\<rparr>,
         \<lparr>entry_image_id = 1, entry_annotation_id = 3, expected_label = py ''cat'',
          entry_prediction_label = py ''cow'', entry_confidence = 0, is_match = False,
          entry_rationale = None, entry_bbox = None, polygon = None\<rparr>] = Inr s
     \<and> total s = 3 \<and> matches s = 2 \<and> mismatches s = 1
     \<and> accuracy s = 2 / 3 \<and> average_confidence s = 1 / 2"
  using build_summary_correct
    [of "[\<lparr>entry_image_id = 1, entry_annotation_id = 1, expected_label = py ''cat'',
          entry_prediction_label = py ''cat'', entry_confidence = 1 / 2, is_match = True,
          entry_rationale = None, entry_bbox = None, polygon = None\<rparr>,
         \<lparr>entry_image_id = 1, entry_annotation_id = 2, expected_label = py ''dog'',
          entry_prediction_label = py ''Dog'', entry_confidence = 1, is_match = True,
          entry_rationale = None, entry_bbox = None, polygon = None\<rparr>,
         \<lparr>entry_image_id = 1, entry_annotation_id = 3, expected_label = py ''cat'',
          entry_prediction_label = py ''cow'', entry_confidence = 0, is_match = False,
          entry_rationale = None, entry_bbox = None, polygon = None\<rparr>]"]
  by auto

section \<open>Properties of region extraction\<close>

lemma py_int_nonneg: "0 \<le> x \<Longrightarrow> 0 \<le> py_int x"
  by (simp add: py_int_def)

lemma py_int_le: "x \<le> of_int n \<Longrightarrow> 0 \<le> n \<Longrightarrow> py_int x \<le> n"
  unfolding py_int_def by (auto simp: floor_le_iff ceiling_le_iff)

lemma region_bbox:
  "bbox a = Some [x, y, w, h] \<Longrightarrow> annotation_region fadd a = Inr (x, y, fadd x w, fadd y h)"
  by (simp add: annotation_region_def has_bbox_def)

lemma region_no_bbox:
  "\<not> has_bbox a \<Longrightarrow> annotation_region fadd a =
     (if has_polygon a then polygon_bbox (case segmentation a of None \<Rightarrow> [] | Some segs \<Rightarrow> segs)
      else Inl (ValueError (py ''Annotation '' @ str_int (ann_id a) @ py '' missing bbox and polygon'')))"
  by (simp add: annotation_region_def)

lemma mask_crop_size:
  assumes "mask_crop draw blend crop a config left_i top_i = Inr c"
  shows "width c = width crop \<and> height c = height crop"
  using assms
  by (auto simp: mask_crop_def Let_def putalpha_def convert_rgba_def alpha_composite_def new_rgba_def
      split: if_splits sum.splits option.splits prod.splits)

lemma mask_crop_unmasked:
  "\<not> (has_polygon a \<and> mask_polygon config) \<Longrightarrow> mask_crop draw blend crop a config left_i top_i = Inr crop"
  by (auto simp: mask_crop_def)

lemma crop_annotation_bbox:
  assumes "bbox a = Some [x, y, w, h]"
  shows "crop_annotation draw blend fadd im a (Some config) =
      (case expand_box x y (fadd x w) (fadd y h) (padding config) (width im) (height im) of
        (left_i, top_i, right_i, bottom_i) \<Rightarrow>
           (case image_crop im (left_i, top_i, right_i, bottom_i) of
                Inl e \<Rightarrow> Inl e
              | Inr crop \<Rightarrow> mask_crop draw blend crop a config left_i top_i))"
  by (simp add: crop_annotation_def crop_window_def region_bbox[OF assms] split: prod.splits)

lemma expand_box_inside:
  assumes "0 \<le> x" "0 \<le> y" "x \<le> r" "y \<le> b"
    and "r \<le> of_int W" "b \<le> of_int H" and "p \<le> 0"
  shows "expand_box x y r b p W H = (\<lfloor>x\<rfloor>, \<lfloor>y\<rfloor>, \<lfloor>r\<rfloor>, \<lfloor>b\<rfloor>)"
proof -
  have pad: "max 0 p = 0"
    using assms(7) by simp
  have hi: "\<lfloor>r\<rfloor> \<le> W" "\<lfloor>b\<rfloor> \<le> H"
    using assms by (simp_all add: floor_le_iff)
  have lo: "0 \<le> \<lfloor>x\<rfloor>" "0 \<le> \<lfloor>y\<rfloor>"
    using assms by simp_all
  have "max (\<lfloor>x\<rfloor> - 0) 0 = \<lfloor>x\<rfloor>" "max (\<lfloor>y\<rfloor> - 0) 0 = \<lfloor>y\<rfloor>"
    "min (\<lfloor>r\<rfloor> + 0) W = \<lfloor>r\<rfloor>" "min (\<lfloor>b\<rfloor> + 0) H = \<lfloor>b\<rfloor>"
    using hi lo by linarith+
  moreover have "py_int x = \<lfloor>x\<rfloor>" "py_int y = \<lfloor>y\<rfloor>" "py_int r = \<lfloor>r\<rfloor>" "py_int b = \<lfloor>b\<rfloor>"
    using assms by (simp_all add: py_int_def)
  ultimately show ?thesis
    unfolding expand_box_def Let_def pad by (simp only:)
qed

lemma segment_points_even:
  "even (length segment) \<Longrightarrow> segment_points segment l t = Inr (local_polygon l t segment)"
  by (induction segment l t rule: segment_points.induct) (simp_all add: local_polygon_def)

lemma draw_segments_fill:
  "\<forall>segment \<in> set segments. even (length segment) \<Longrightarrow>
     draw_segments draw sz msk segments l t = fill_polygons draw sz msk (map (local_polygon l t) segments)"
proof (induction segments arbitrary: msk)
  case Nil
  show ?case by simp
next
  case (Cons segment segments)
  then have "segment_points segment l t = Inr (local_polygon l t segment)"
    by (simp add: segment_points_even)
  with Cons show ?case
    by (simp split: sum.splits)
qed

lemma region_square:
  "annotation_region exact_sum (new_annotation 2 1 1\<lparr>segmentation := Some [[8, 8, 24, 8, 24, 24, 8, 24]]\<rparr>)
     = Inr (8, 8, 24, 24)"
  by (simp add: annotation_region_def has_bbox_def has_polygon_def new_annotation_def
      polygon_bbox_def)

text \<open>
  C2, as amended. For every image (of a size that is not negative), every annotation for
  which a region is determined (from the bbox, or else from the polygons), and every
  padding: the crop rectangle is computed; its left and top edges are at least 0 and its
  right and bottom edges are at most the width and the height of the image; its left
  edge is at most the width where the left edge of the region is, its top edge at most
  the height where the top edge of the region is, and its right and bottom edges are at
  least 0 where those of the region are. A negative padding gives the rectangle of the
  padding 0.
\<close>

theorem crop_window_bounds:
  assumes "annotation_region fadd a = Inr (left, top', right, bottom)"
    and "0 \<le> width im" and "0 \<le> height im"
  shows "\<exists>l t r b. crop_window fadd im a config = Inr (l, t, r, b)
           \<and> 0 \<le> l \<and> 0 \<le> t \<and> r \<le> width im \<and> b \<le> height im
           \<and> (left \<le> of_int (width im) \<longrightarrow> l \<le> width im)
           \<and> (top' \<le> of_int (height im) \<longrightarrow> t \<le> height im)
           \<and> (0 \<le> right \<longrightarrow> 0 \<le> r)
           \<and> (0 \<le> bottom \<longrightarrow> 0 \<le> b)
           \<and> crop_window fadd im a (config\<lparr>padding := max 0 (padding config)\<rparr>) = Inr (l, t, r, b)"
  using assms py_int_le[of left "width im"] py_int_le[of top' "height im"]
    py_int_nonneg[of right] py_int_nonneg[of bottom]
  by (auto simp: crop_window_def expand_box_def Let_def)

theorem crop_window_bounds_witness:
  "annotation_region exact_sum (new_annotation 2 1 1\<lparr>segmentation := Some [[8, 8, 24, 8, 24, 24, 8, 24]]\<rparr>)
     = Inr (8, 8, 24, 24)
   \<and> 0 \<le> width (new_rgb (32, 32) (255, 255, 255))
   \<and> crop_window exact_sum (new_rgb (32, 32) (255, 255, 255))
        (new_annotation 2 1 1\<lparr>segmentation := Some [[8, 8, 24, 8, 24, 24, 8, 24]]\<rparr>)
        \<lparr>padding = 2, mask_polygon = True, background_color = (0, 0, 0, 0)\<rparr> = Inr (6, 6, 26, 26)
   \<and> crop_window exact_sum (new_rgb (32, 32) (255, 255, 255))
        (new_annotation 2 1 1\<lparr>segmentation := Some [[8, 8, 24, 8, 24, 24, 8, 24]]\<rparr>)
        \<lparr>padding = 100, mask_polygon = True, background_color = (0, 0, 0, 0)\<rparr> = Inr (0, 0, 32, 32)"
  using crop_window_bounds [OF region_square, of "new_rgb (32, 32) (255, 255, 255)"
      "\<lparr>padding = 2, mask_polygon = True, background_color = (0, 0, 0, 0)\<rparr>"]
    region_square
  by (simp add: crop_window_def expand_box_def new_rgb_def py_int_def)

text \<open>
  C2 as stated fails: a bbox that starts right of the image gives a rectangle whose left
  edge exceeds the width of the image.
\<close>

theorem crop_window_exceeds_counterexample:
  "crop_window exact_sum create_base_image (new_annotation 1 1 1\<lparr>bbox := Some [100, 0, 10, 10]\<rparr>)
      default_crop_config = Inr (100, 0, 64, 10)
   \<and> \<not> 100 \<le> width create_base_image"
  by (simp add: crop_window_def annotation_region_def has_bbox_def new_annotation_def expand_box_def
      default_crop_config_def create_base_image_def py_int_def exact_sum_def)

text \<open>
  C3, as amended. For an annotation with a bbox \<open>[x, y, w, h]\<close> that lies inside the image
  (\<open>x\<close> and \<open>y\<close> are not negative, and the edges \<open>x + w\<close> and \<open>y + h\<close>, as Python
  computes the sums, are at least \<open>x\<close> and \<open>y\<close> and at most the width and the height)
  and the padding 0: every crop that is returned has the width \<open>int(x + w) - int(x)\<close> and
  the height \<open>int(y + h) - int(y)\<close>, with the sums as Python computes them; these are
  \<open>w\<close> and \<open>h\<close> where the coordinates are whole numbers and the sums are exact; and
  where no mask is applied, a crop is returned and its top-left pixel, if it has one, is
  the pixel of the image at \<open>(int(x), int(y))\<close>.
\<close>

theorem crop_bbox_zero_padding:
  assumes "bbox a = Some [x, y, w, h]"
    and "0 \<le> x" "0 \<le> y" "x \<le> fadd x w" "y \<le> fadd y h"
    and "fadd x w \<le> of_int (width im)" "fadd y h \<le> of_int (height im)"
    and "padding config = 0"
  shows "(\<forall>crop. crop_annotation draw blend fadd im a (Some config) = Inr crop \<longrightarrow>
            width crop = py_int (fadd x w) - py_int x \<and> height crop = py_int (fadd y h) - py_int y
          \<and> (x \<in> \<int> \<and> w \<in> \<int> \<and> fadd x w = x + w \<longrightarrow> of_int (width crop) = w)
          \<and> (y \<in> \<int> \<and> h \<in> \<int> \<and> fadd y h = y + h \<longrightarrow> of_int (height crop) = h))
       \<and> (\<not> (has_polygon a \<and> mask_polygon config) \<longrightarrow>
            (\<exists>crop. crop_annotation draw blend fadd im a (Some config) = Inr crop
               \<and> (0 < width crop \<and> 0 < height crop \<longrightarrow>
                    getpixel crop (0, 0) = getpixel im (py_int x, py_int y))))"
proof -
  let ?l = "\<lfloor>x\<rfloor>" and ?t = "\<lfloor>y\<rfloor>" and ?r = "\<lfloor>fadd x w\<rfloor>" and ?b = "\<lfloor>fadd y h\<rfloor>"
  have box: "expand_box x y (fadd x w) (fadd y h) (padding config) (width im) (height im) = (?l, ?t, ?r, ?b)"
    using assms by (intro expand_box_inside) simp_all
  have ord: "?l \<le> ?r" "?t \<le> ?b"
    using assms by (simp_all add: floor_mono)
  have nn: "0 \<le> fadd x w" "0 \<le> fadd y h"
    using assms by linarith+
  have pi: "py_int x = ?l" "py_int y = ?t" "py_int (fadd x w) = ?r" "py_int (fadd y h) = ?b"
    using assms nn by (simp_all add: py_int_def)
  have bnd: "?r \<le> width im" "?b \<le> height im" "0 \<le> ?l" "0 \<le> ?t"
    using assms by (simp_all add: floor_le_iff)
  obtain crop where crop: "image_crop im (?l, ?t, ?r, ?b) = Inr crop"
    and size: "width crop = ?r - ?l" "height crop = ?b - ?t"
    and px: "pixel crop 0 0 = (if inside im ?l ?t then pixel im ?l ?t else (0, 0, 0))"
    and al: "alpha crop = map_option
                 (\<lambda>a. \<lambda>x y. if inside im (?l + x) (?t + y) then a (?l + x) (?t + y) else 0)
                 (alpha im)"
    using ord by (simp add: image_crop_def)
  have res: "crop_annotation draw blend fadd im a (Some config) = mask_crop draw blend crop a config ?l ?t"
    by (simp add: crop_annotation_bbox[OF assms(1)] box crop)
  have intw: "of_int (?r - ?l) = w" if "x \<in> \<int>" "w \<in> \<int>" "fadd x w = x + w"
    using that by (auto elim!: Ints_cases)
  have inth: "of_int (?b - ?t) = h" if "y \<in> \<int>" "h \<in> \<int>" "fadd y h = y + h"
    using that by (auto elim!: Ints_cases)
  have A: "width c = py_int (fadd x w) - py_int x \<and> height c = py_int (fadd y h) - py_int y
          \<and> (x \<in> \<int> \<and> w \<in> \<int> \<and> fadd x w = x + w \<longrightarrow> of_int (width c) = w)
          \<and> (y \<in> \<int> \<and> h \<in> \<int> \<and> fadd y h = y + h \<longrightarrow> of_int (height c) = h)"
    if "crop_annotation draw blend fadd im a (Some config) = Inr c" for c
  proof -
    from that res have "mask_crop draw blend crop a config ?l ?t = Inr c"
      by simp
    from mask_crop_size[OF this] have "width c = ?r - ?l" "height c = ?b - ?t"
      using size by simp_all
    then show ?thesis
      using intw inth by (simp add: pi)
  qed
  have B: "\<exists>c. crop_annotation draw blend fadd im a (Some config) = Inr c
               \<and> (0 < width c \<and> 0 < height c \<longrightarrow>
                    getpixel c (0, 0) = getpixel im (py_int x, py_int y))"
    if um: "\<not> (has_polygon a \<and> mask_polygon config)"
  proof -
    have r: "crop_annotation draw blend fadd im a (Some config) = Inr crop"
      using res mask_crop_unmasked[OF um] by simp
    have "getpixel crop (0, 0) = getpixel im (?l, ?t)" if pos: "0 < width crop" "0 < height crop"
    proof -
      have ins: "inside im ?l ?t"
        using pos size bnd by (simp add: inside_def)
      have "inside crop 0 0"
        using pos by (simp add: inside_def)
      then show ?thesis
        using ins px al by (cases "alpha im") (simp_all add: getpixel_def)
    qed
    with r show ?thesis
      by (auto simp: pi)
  qed
  from A B show ?thesis
    by blast
qed

theorem crop_bbox_zero_padding_witness:
  "(\<exists>crop. crop_annotation fill_bounding_box blend_opaque exact_sum create_base_image
       (new_annotation 1 1 1\<lparr>bbox := Some [16, 16, 32, 32]\<rparr>)
       (Some \<lparr>padding = 0, mask_polygon = False, background_color = (0, 0, 0, 0)\<rparr>) = Inr crop
     \<and> image_size crop = (32, 32)
     \<and> getpixel crop (0, 0) = Inr ((255, 0, 0), None))
   \<and> (\<exists>crop. crop_annotation fill_bounding_box blend_opaque rounded_sum create_base_image
       (new_annotation 1 1 1\<lparr>bbox := Some [5404319552844595 / 2 ^ 54, 0, 6305039478318694 / 2 ^ 53, 1]\<rparr>)
       (Some \<lparr>padding = 0, mask_polygon = False, background_color = (0, 0, 0, 0)\<rparr>) = Inr crop
     \<and> image_size crop = (1, 1))"
proof -
  let ?config = "\<lparr>padding = 0, mask_polygon = False, background_color = (0, 0, 0, 0)\<rparr>"
  have 1: "\<exists>crop. crop_annotation fill_bounding_box blend_opaque exact_sum create_base_image
       (new_annotation 1 1 1\<lparr>bbox := Some [16, 16, 32, 32]\<rparr>) (Some ?config) = Inr crop
     \<and> image_size crop = (32, 32)
     \<and> getpixel crop (0, 0) = Inr ((255, 0, 0), None)"
    using crop_bbox_zero_padding [where a = "new_annotation 1 1 1\<lparr>bbox := Some [16, 16, 32, 32]\<rparr>"
        and x = 16 and y = 16 and w = 32 and h = 32 and fadd = exact_sum and im = create_base_image
        and config = ?config and draw = fill_bounding_box and blend = blend_opaque]
    by (auto simp: new_annotation_def create_base_image_def image_size_def py_int_def getpixel_def
        inside_def exact_sum_def)
  have r: "rounded_sum (5404319552844595 / 2 ^ 54) (6305039478318694 / 2 ^ 53) = 1"
    "rounded_sum 0 1 = 1"
    by (simp_all add: rounded_sum_def)
  have p: "py_int 1 = 1" "py_int (5404319552844595 / 2 ^ 54) = 0" "py_int 0 = 0"
    by (simp_all add: py_int_def)
  have 2: "\<exists>crop. crop_annotation fill_bounding_box blend_opaque rounded_sum create_base_image
       (new_annotation 1 1 1\<lparr>bbox := Some [5404319552844595 / 2 ^ 54, 0, 6305039478318694 / 2 ^ 53, 1]\<rparr>)
       (Some ?config) = Inr crop
     \<and> image_size crop = (1, 1)"
    using crop_bbox_zero_padding [where
        a = "new_annotation 1 1 1\<lparr>bbox := Some [5404319552844595 / 2 ^ 54, 0, 6305039478318694 / 2 ^ 53, 1]\<rparr>"
        and x = "5404319552844595 / 2 ^ 54" and y = 0 and w = "6305039478318694 / 2 ^ 53" and h = 1
        and fadd = rounded_sum and im = create_base_image
        and config = ?config and draw = fill_bounding_box and blend = blend_opaque]
    unfolding r p
    by (auto simp: new_annotation_def create_base_image_def image_size_def has_polygon_def)
  from 1 2 show ?thesis
    by (rule conjI)
qed

text \<open>
  C3 as stated fails on a bbox with fractional coordinates: the bbox
  \<open>[0.75, 0, 0.25, 1]\<close>, whose sums \<open>0.75 + 0.25\<close> and \<open>0 + 1\<close> are exact in floats,
  gives a crop of width 1, and \<open>round(0.25)\<close> is 0.
\<close>

theorem crop_size_round_counterexample:
  "map_sum id image_size
     (crop_annotation fill_bounding_box blend_opaque exact_sum create_base_image
        (new_annotation 1 1 1\<lparr>bbox := Some [3 / 4, 0, 1 / 4, 1]\<rparr>)
        (Some \<lparr>padding = 0, mask_polygon = False, background_color = (0, 0, 0, 0)\<rparr>)) = Inr (1, 1)
   \<and> (py_round (1 / 4), py_round 1) = (0, 1)"
  by (simp add: crop_annotation_def crop_window_def annotation_region_def has_bbox_def
      new_annotation_def expand_box_def create_base_image_def py_int_def image_crop_def
      mask_crop_def has_polygon_def image_size_def py_round_def exact_sum_def)


text \<open>
  C5. For an annotation with a bbox of four elements and a non-empty segmentation, the
  crop rectangle is the expansion of the bbox, whatever the segmentation is; and with
  \<open>mask_polygon\<close> set, where the polygons have their coordinates in pairs and Pillow
  crops the rectangle and fills the polygons, the result is that crop with the alpha
  band replaced by the mask of the polygons translated into the coordinates of the crop
  (composited over the background colour where that is not transparent).
\<close>

theorem bbox_precedence:
  assumes "bbox a = Some [x, y, w, h]" and "segmentation a = Some segs" and "segs \<noteq> []"
    and "expand_box x y (fadd x w) (fadd y h) (padding config) (width im) (height im)
           = (left_i, top_i, right_i, bottom_i)"
  shows "crop_window fadd im a config = Inr (left_i, top_i, right_i, bottom_i)
       \<and> crop_window fadd im (a\<lparr>segmentation := other\<rparr>) config = Inr (left_i, top_i, right_i, bottom_i)
       \<and> (mask_polygon config \<and> (\<forall>segment \<in> set segs. even (length segment))
            \<and> image_crop im (left_i, top_i, right_i, bottom_i) = Inr crop
            \<and> fill_polygons draw (width crop, height crop) (\<lambda>x y. 0)
                 (map (local_polygon left_i top_i) segs) = Inr msk
          \<longrightarrow> crop_annotation draw blend fadd im a (Some config) =
                Inr (if 0 < snd (snd (snd (background_color config)))
                     then alpha_composite blend
                            (new_rgba (width crop, height crop) (background_color config))
                            (crop\<lparr>alpha := Some msk\<rparr>)
                     else crop\<lparr>alpha := Some msk\<rparr>))"
proof -
  have w1: "crop_window fadd im a config = Inr (left_i, top_i, right_i, bottom_i)"
    using assms(4) by (simp add: crop_window_def region_bbox[OF assms(1)])
  have "bbox (a\<lparr>segmentation := other\<rparr>) = Some [x, y, w, h]"
    using assms(1) by simp
  then have w2: "crop_window fadd im (a\<lparr>segmentation := other\<rparr>) config = Inr (left_i, top_i, right_i, bottom_i)"
    using assms(4) by (simp add: crop_window_def region_bbox)
  have m: "crop_annotation draw blend fadd im a (Some config) =
                Inr (if 0 < snd (snd (snd (background_color config)))
                     then alpha_composite blend
                            (new_rgba (width crop, height crop) (background_color config))
                            (crop\<lparr>alpha := Some msk\<rparr>)
                     else crop\<lparr>alpha := Some msk\<rparr>)"
    if "mask_polygon config" and ev: "\<forall>segment \<in> set segs. even (length segment)"
      and c: "image_crop im (left_i, top_i, right_i, bottom_i) = Inr crop"
      and f: "fill_polygons draw (width crop, height crop) (\<lambda>x y. 0)
                 (map (local_polygon left_i top_i) segs) = Inr msk"
  proof -
    have hp: "has_polygon a"
      using assms(2,3) by (simp add: has_polygon_def)
    have d: "draw_segments draw (width crop, height crop) (\<lambda>x y. 0) segs left_i top_i = Inr msk"
      using draw_segments_fill[OF ev] f by simp
    have pa: "putalpha (convert_rgba crop) msk = crop\<lparr>alpha := Some msk\<rparr>"
      by (simp add: putalpha_def convert_rgba_def split: option.splits)
    have "mask_crop draw blend crop a config left_i top_i =
                Inr (if 0 < snd (snd (snd (background_color config)))
                     then alpha_composite blend
                            (new_rgba (width crop, height crop) (background_color config))
                            (crop\<lparr>alpha := Some msk\<rparr>)
                     else crop\<lparr>alpha := Some msk\<rparr>)"
      using hp that(1) d by (simp add: mask_crop_def assms(2) pa Let_def)
    then show ?thesis
      by (simp add: crop_annotation_def w1 c)
  qed
  from w1 w2 m show ?thesis
    by blast
qed

theorem bbox_precedence_witness:
  "\<exists>crop. crop_annotation fill_bounding_box blend_opaque exact_sum (new_rgb (32, 32) (255, 255, 255))
       (new_annotation 2 1 1\<lparr>bbox := Some [8, 8, 16, 16],
          segmentation := Some [[8, 8, 24, 8, 24, 24, 8, 24]]\<rparr>)
       (Some \<lparr>padding = 2, mask_polygon = True, background_color = (0, 0, 0, 0)\<rparr>) = Inr crop
     \<and> image_size crop = (20, 20)
     \<and> getpixel crop (0, 0) = Inr ((255, 255, 255), Some 0)
     \<and> getpixel crop (10, 10) = Inr ((255, 255, 255), Some 255)"
proof -
  let ?im = "new_rgb (32, 32) (255, 255, 255)"
  let ?a = "new_annotation 2 1 1\<lparr>bbox := Some [8, 8, 16, 16],
              segmentation := Some [[8, 8, 24, 8, 24, 24, 8, 24]]\<rparr>"
  let ?config = "\<lparr>padding = 2, mask_polygon = True, background_color = (0, 0, 0, 0)\<rparr>"
  have b: "bbox ?a = Some [8, 8, 16, 16]"
    and s: "segmentation ?a = Some [[8, 8, 24, 8, 24, 24, 8, 24]]"
    and ne: "[[8, 8, 24, 8, 24, 24, 8, 24 :: real]] \<noteq> []"
    by (simp_all add: new_annotation_def)
  have box: "expand_box 8 8 (exact_sum 8 16) (exact_sum 8 16) (padding ?config) (width ?im) (height ?im)
      = (6, 6, 26, 26)"
    by (simp add: expand_box_def py_int_def new_rgb_def exact_sum_def)
  obtain crop where c: "image_crop ?im (6, 6, 26, 26) = Inr crop"
    and sz: "width crop = 20" "height crop = 20"
    and px: "pixel crop 0 0 = (255, 255, 255)" "pixel crop 10 10 = (255, 255, 255)"
    by (simp add: image_crop_def new_rgb_def inside_def)
  obtain msk where f: "fill_polygons fill_bounding_box (width crop, height crop) (\<lambda>x y. 0)
        (map (local_polygon 6 6) [[8, 8, 24, 8, 24, 24, 8, 24]]) = Inr msk"
    and m: "msk 0 0 = 0" "msk 10 10 = 255"
    by (simp add: fill_bounding_box_def local_polygon_def)
  have ev: "\<forall>segment \<in> set [[8, 8, 24, 8, 24, 24, 8, 24 :: real]]. even (length segment)"
    by simp
  from bbox_precedence [where fadd = exact_sum and other = other and crop = crop
      and draw = fill_bounding_box and msk = msk and blend = blend_opaque, OF b s ne box] ev c f
  have "crop_annotation fill_bounding_box blend_opaque exact_sum ?im ?a (Some ?config) = Inr (crop\<lparr>alpha := Some msk\<rparr>)"
    by simp
  then show ?thesis
    using sz px m by (simp add: image_size_def getpixel_def inside_def)
qed

text \<open>
  C10. An annotation whose bbox is present without having exactly 4 elements is cropped
  as the same annotation without a bbox: the rectangle comes from the bounding box of
  the polygons where the segmentation is not empty, and the call fails with the error
  of the missing geometry where it is.
\<close>

theorem malformed_bbox_ignored:
  assumes "bbox a = Some b" and "length b \<noteq> 4"
  shows "crop_annotation draw blend fadd im a config = crop_annotation draw blend fadd im (a\<lparr>bbox := None\<rparr>) config
       \<and> (has_polygon a \<longrightarrow>
            crop_window fadd im a cfg =
              (case polygon_bbox (case segmentation a of None \<Rightarrow> [] | Some segs \<Rightarrow> segs) of
                 Inl e \<Rightarrow> Inl e
               | Inr (left, top', right, bottom) \<Rightarrow>
                   Inr (expand_box left top' right bottom (padding cfg) (width im) (height im))))
       \<and> (\<not> has_polygon a \<longrightarrow>
            crop_annotation draw blend fadd im a config =
              Inl (ValueError (py ''Annotation '' @ str_int (ann_id a) @ py '' missing bbox and polygon'')))"
proof -
  have nb: "\<not> has_bbox a" "\<not> has_bbox (a\<lparr>bbox := None\<rparr>)"
    using assms by (simp_all add: has_bbox_def)
  have hp: "has_polygon (a\<lparr>bbox := None\<rparr>) = has_polygon a"
    by (simp add: has_polygon_def)
  have reg: "annotation_region fadd (a\<lparr>bbox := None\<rparr>) = annotation_region fadd a"
    using nb hp by (simp add: region_no_bbox)
  have win: "\<And>c. crop_window fadd im (a\<lparr>bbox := None\<rparr>) c = crop_window fadd im a c"
    by (simp add: crop_window_def reg)
  have mc: "\<And>crop c l t. mask_crop draw blend crop (a\<lparr>bbox := None\<rparr>) c l t = mask_crop draw blend crop a c l t"
    by (simp add: mask_crop_def hp)
  have 1: "crop_annotation draw blend fadd im a config = crop_annotation draw blend fadd im (a\<lparr>bbox := None\<rparr>) config"
    by (simp add: crop_annotation_def win mc Let_def cong: sum.case_cong)
  have 2: "crop_window fadd im a cfg =
              (case polygon_bbox (case segmentation a of None \<Rightarrow> [] | Some segs \<Rightarrow> segs) of
                 Inl e \<Rightarrow> Inl e
               | Inr (left, top', right, bottom) \<Rightarrow>
                   Inr (expand_box left top' right bottom (padding cfg) (width im) (height im)))"
    if "has_polygon a"
    using that nb(1) by (auto simp: crop_window_def region_no_bbox has_polygon_def split: option.splits)
  have 3: "crop_annotation draw blend fadd im a config =
              Inl (ValueError (py ''Annotation '' @ str_int (ann_id a) @ py '' missing bbox and polygon''))"
    if "\<not> has_polygon a"
    using that nb(1) by (simp add: crop_annotation_def crop_window_def region_no_bbox)
  from 1 2 3 show ?thesis by blast
qed


theorem malformed_bbox_ignored_witness:
  "length [8, 8, 16 :: real] \<noteq> 4
   \<and> crop_window exact_sum (new_rgb (32, 32) (255, 255, 255))
     (new_annotation 2 1 1\<lparr>bbox := Some [8, 8, 16], segmentation := Some [[8, 8, 24, 8, 24, 24, 8, 24]]\<rparr>)
     \<lparr>padding = 2, mask_polygon = True, background_color = (0, 0, 0, 0)\<rparr> = Inr (6, 6, 26, 26)"
proof -
  let ?a = "new_annotation 2 1 1\<lparr>bbox := Some [8, 8, 16],
              segmentation := Some [[8, 8, 24, 8, 24, 24, 8, 24]]\<rparr>"
  have b: "bbox ?a = Some [8, 8, 16]" and l: "length [8, 8, 16 :: real] \<noteq> 4"
    by (simp_all add: new_annotation_def)
  have p: "has_polygon ?a"
    by (simp add: has_polygon_def new_annotation_def)
  have s: "segmentation ?a = Some [[8, 8, 24, 8, 24, 24, 8, 24]]"
    by (simp add: new_annotation_def)
  have q: "polygon_bbox [[8, 8, 24, 8, 24, 24, 8, 24]] = Inr (8, 8, 24, 24)"
    by (simp add: polygon_bbox_def)
  from malformed_bbox_ignored [OF b l, of fill_bounding_box blend_opaque exact_sum
      "new_rgb (32, 32) (255, 255, 255)" None
      "\<lparr>padding = 2, mask_polygon = True, background_color = (0, 0, 0, 0)\<rparr>"] p
  have "crop_window exact_sum (new_rgb (32, 32) (255, 255, 255)) ?a
          \<lparr>padding = 2, mask_polygon = True, background_color = (0, 0, 0, 0)\<rparr>
        = Inr (expand_box 8 8 24 24 2 32 32)"
    by (simp add: s q new_rgb_def)
  then show ?thesis
    by (simp add: expand_box_def py_int_def)
qed

section \<open>Properties of the loader\<close>

lemma and_then_Inr: "and_then m f = Inr y \<longleftrightarrow> (\<exists>x. m = Inr x \<and> f x = Inr y)"
  by (cases m) simp_all

lemma load_entries_nth:
  "load_entries entries = Inr anns \<Longrightarrow>
     length anns = length entries \<and> (\<forall>i < length entries. load_annotation (entries ! i) = Inr (anns ! i))"
proof (induction entries arbitrary: anns)
  case Nil
  then show ?case by simp
next
  case (Cons entry entries)
  from Cons.prems obtain a rest where a: "load_annotation entry = Inr a"
    and rest: "load_entries entries = Inr rest" and anns: "anns = a # rest"
    by (auto split: sum.splits)
  from Cons.IH[OF rest] a anns show ?case
    by (auto simp: nth_Cons split: nat.splits)
qed

lemma load_annotation_segmentation:
  assumes "load_annotation entry = Inr a" and "dict_get entry (py ''segmentation'') JNull = Inr seg"
  shows "raw_segmentation a = normalize_segmentation seg"
  using assms by (auto simp: load_annotation_def and_then_Inr)

lemma normalize_flat:
  assumes "xs \<noteq> []" and "list_all is_number xs"
  shows "normalize_segmentation (JArr xs) = JArr [JArr xs]"
  using assms by (cases xs) simp_all

lemma normalize_nested:
  assumes "list_all is_list ps"
  shows "normalize_segmentation (JArr ps) = JArr ps"
proof (cases ps)
  case Nil
  then show ?thesis by simp
next
  case (Cons p ps')
  with assms have "is_list p" by simp
  then have "\<not> is_number p" by (cases p) simp_all
  with Cons show ?thesis by simp
qed

text \<open>
  C6. Where the loader returns a dataset, it has stored one annotation for each entry of
  the \<open>annotations\<close> array, in order. An entry whose segmentation is a (non-empty) flat
  list of numbers is stored with the one-element list of that list, which reads as one
  polygon; a segmentation that is a list of lists is stored unchanged; in both cases
  the stored segmentation is a list of lists.
\<close>

theorem segmentation_normalised:
  assumes "load_coco_dataset coco = Inr ds"
    and "dict_get coco (py ''annotations'') (JArr []) = Inr (JArr entries)"
    and "i < length entries"
    and "dict_get (entries ! i) (py ''segmentation'') JNull = Inr seg"
  shows "length (annotations ds) = length entries
     \<and> (\<forall>xs. seg = JArr xs \<and> xs \<noteq> [] \<and> list_all is_number xs \<longrightarrow>
          raw_segmentation (annotations ds ! i) = JArr [JArr xs]
        \<and> as_polygons (raw_segmentation (annotations ds ! i)) = Some [map number_value xs])
     \<and> (\<forall>ps. seg = JArr ps \<and> list_all is_list ps \<longrightarrow> raw_segmentation (annotations ds ! i) = JArr ps)
     \<and> ((\<exists>xs. seg = JArr xs \<and> (xs \<noteq> [] \<and> list_all is_number xs \<or> list_all is_list xs)) \<longrightarrow>
          (\<exists>ps. raw_segmentation (annotations ds ! i) = JArr ps \<and> list_all is_list ps))"
proof -
  from assms(1,2) have le: "load_entries entries = Inr (annotations ds)"
    by (auto simp: load_coco_dataset_def and_then_Inr)
  from load_entries_nth[OF le] assms(3)
  have len: "length (annotations ds) = length entries"
    and a: "load_annotation (entries ! i) = Inr (annotations ds ! i)"
    by simp_all
  have st: "raw_segmentation (annotations ds ! i) = normalize_segmentation seg"
    using load_annotation_segmentation[OF a assms(4)] .
  have flat: "raw_segmentation (annotations ds ! i) = JArr [JArr xs]
        \<and> as_polygons (raw_segmentation (annotations ds ! i)) = Some [map number_value xs]"
    if "seg = JArr xs" "xs \<noteq> []" "list_all is_number xs" for xs
    using that st by (simp add: normalize_flat)
  have nested: "raw_segmentation (annotations ds ! i) = JArr ps"
    if "seg = JArr ps" "list_all is_list ps" for ps
    using that st by (simp add: normalize_nested)
  have uniform: "\<exists>ps. raw_segmentation (annotations ds ! i) = JArr ps \<and> list_all is_list ps"
    if "\<exists>xs. seg = JArr xs \<and> (xs \<noteq> [] \<and> list_all is_number xs \<or> list_all is_list xs)"
    using that flat nested by auto
  from len flat nested uniform show ?thesis
    by blast
qed

lemma example_loaded: "\<exists>ds. load_coco_dataset example_coco = Inr ds"
  by (simp add: load_coco_dataset_def example_coco_def load_annotation_def load_category_def
      load_image_def dict_store_def)

theorem segmentation_normalised_witness:
  "\<exists>ds entries. load_coco_dataset example_coco = Inr ds
     \<and> dict_get example_coco (py ''annotations'') (JArr []) = Inr (JArr entries)
     \<and> 0 < length entries
     \<and> dict_get (entries ! 0) (py ''segmentation'') JNull
          = Inr (JArr [JInt 8, JInt 8, JInt 24, JInt 8, JInt 24, JInt 24, JInt 8, JInt 24])
     \<and> as_polygons (raw_segmentation (annotations ds ! 0)) = Some [[8, 8, 24, 8, 24, 24, 8, 24]]"
proof -
  obtain ds where l: "load_coco_dataset example_coco = Inr ds"
    using example_loaded by blast
  obtain entries where d: "dict_get example_coco (py ''annotations'') (JArr []) = Inr (JArr entries)"
    and n: "0 < length entries"
    and s: "dict_get (entries ! 0) (py ''segmentation'') JNull
          = Inr (JArr [JInt 8, JInt 8, JInt 24, JInt 8, JInt 24, JInt 24, JInt 8, JInt 24])"
    by (simp add: example_coco_def)
  from segmentation_normalised [OF l d n s]
  have "as_polygons (raw_segmentation (annotations ds ! 0))
          = Some [map number_value [JInt 8, JInt 8, JInt 24, JInt 8, JInt 24, JInt 24, JInt 8, JInt 24]]"
    by simp
  with l d n s show ?thesis
    by auto
qed

section \<open>Properties of the verification client\<close>

subsection \<open>The prompt\<close>

lemma strip_unchanged:
  assumes "g \<noteq> []" and "\<not> isspace (hd g)" and "\<not> isspace (last g)"
  shows "strip g = g"
proof -
  from assms(1,2) have 1: "dropWhile isspace g = g"
    by (cases g) simp_all
  from assms(1,3) have 2: "dropWhile isspace (rev g) = rev g"
    by (cases "rev g") (auto simp: last_rev[symmetric] simp del: last_rev)
  show ?thesis
    by (simp add: strip_def 1 2)
qed

text \<open>
  C7, as amended. Where the template is filled, the prompt of the request is the filled
  template alone when the guidelines are absent or empty; for a non-empty guidelines
  text it is the filled template, an empty line, the heading \<open>Guidelines:\<close> on a line of
  its own, and the guidelines text with the whitespace at its two ends removed, which is
  the text unchanged where it neither begins nor ends with whitespace.
\<close>

theorem prompt_guidelines:
  assumes "fmt (prompt_template v) label = Inr filled"
  shows "\<exists>body. build_request_body fmt v crop_bytes label guidelines = Inr body
     \<and> (guidelines = None \<or> guidelines = Some [] \<longrightarrow> body_text body = filled)
     \<and> (\<forall>g. guidelines = Some g \<and> g \<noteq> [] \<longrightarrow>
           body_text body = filled @ [10, 10] @ py ''Guidelines:'' @ [10] @ strip g
         \<and> (\<not> isspace (hd g) \<and> \<not> isspace (last g) \<longrightarrow>
              body_text body = filled @ [10, 10] @ py ''Guidelines:'' @ [10] @ g))"
  using assms by (auto simp: build_request_body_def strip_unchanged)

theorem prompt_guidelines_witness:
  "\<exists>body. build_request_body format_fields (new_validator (py ''test-key'') (py ''Is this a {expected_label}?''))
       [] (py ''cat'') (Some (py ''Be strict.'')) = Inr body
     \<and> body_text body = py ''Is this a cat?'' @ [10, 10] @ py ''Guidelines:'' @ [10] @ py ''Be strict.''"
proof -
  have f: "format_fields (prompt_template (new_validator (py ''test-key'') (py ''Is this a {expected_label}?'')))
             (py ''cat'') = Inr (py ''Is this a cat?'')"
    by (simp add: new_validator_def startswith_def)
  from f prompt_guidelines [of format_fields
      "new_validator (py ''test-key'') (py ''Is this a {expected_label}?'')" "py ''cat''"
      "py ''Is this a cat?''" "[]" "Some (py ''Be strict.'')"]
  show ?thesis
    by (auto simp: isspace_def)
qed

text \<open>
  C7 as stated fails: a guidelines text that begins with a space is not appended
  character for character, the space is dropped.
\<close>

theorem guidelines_verbatim_counterexample:
  "map_sum id body_text
     (build_request_body format_fields (new_validator (py ''test-key'') (py ''Is this a {expected_label}?''))
        [] (py ''cat'') (Some (py '' Be strict.'')))
     = Inr (py ''Is this a cat?'' @ [10, 10] @ py ''Guidelines:'' @ [10] @ py ''Be strict.'')
   \<and> py ''Is this a cat?'' @ [10, 10] @ py ''Guidelines:'' @ [10] @ py ''Be strict.''
       \<noteq> py ''Is this a cat?'' @ [10, 10] @ py ''Guidelines:'' @ [10] @ py '' Be strict.''"
  by (simp add: build_request_body_def new_validator_def startswith_def strip_def isspace_def)

subsection \<open>Parsing\<close>

lemma parse_candidate_text:
  "candidate_text payload = Inr text \<Longrightarrow>
     parse_candidate json_loads payload = parse_text json_loads (strip_code_fence text)"
  by (simp add: parse_candidate_def)

lemma dict_get_Inr: "dict_get parsed key dflt = Inr v \<Longrightarrow> \<exists>kvs. parsed = JObj kvs"
  by (cases parsed) simp_all

lemma parse_text_fields:
  assumes "json_loads body = Some parsed"
    and "dict_get parsed (py ''prediction_label'') JNull = Inr label"
    and "dict_get parsed (py ''confidence'') JNull = Inr conf"
    and "dict_get parsed (py ''rationale'') JNull = Inr rat"
  shows "parse_text json_loads body =
     (if \<not> is_str label then Inl (ValueError (py ''Gemini JSON missing prediction_label string''))
      else if \<not> is_number conf then Inl (ValueError (py ''Gemini JSON missing numeric confidence''))
      else and_then (py_float conf) (\<lambda>c.
            Inr \<lparr>prediction_label = str_value label, confidence = c,
                 rationale = (if is_str rat then Some (str_value rat) else None),
                 raw_text = body\<rparr>))"
  using assms by (simp add: parse_text_def)

lemma parse_text_Inr:
  assumes "parse_text json_loads body = Inr r"
  shows "\<exists>parsed label conf. json_loads body = Some parsed
     \<and> dict_get parsed (py ''prediction_label'') JNull = Inr label \<and> is_str label
     \<and> dict_get parsed (py ''confidence'') JNull = Inr conf \<and> is_number conf"
proof (cases "json_loads body")
  case None
  with assms show ?thesis by (simp add: parse_text_def)
next
  case (Some parsed)
  with assms show ?thesis
    by (auto simp: parse_text_def and_then_Inr split: if_splits)
qed

lemma fenced_answer:
  "candidate_text (text_payload (fence @ py ''json'' @ [10] @ example_answer @ [10] @ fence))
     = Inr (fence @ py ''json'' @ [10] @ example_answer @ [10] @ fence)"
  by (simp add: candidate_text_def text_payload_def fence_def example_answer_def strip_def isspace_def)

lemma fenced_answer_body:
  "strip_code_fence (fence @ py ''json'' @ [10] @ example_answer @ [10] @ fence) = example_answer"
  by (simp add: strip_code_fence_def fence_def example_answer_def startswith_def endswith_def
      strip_def isspace_def)

text \<open>
  C4, as amended. For a payload with a text part that is not blank, let \<open>body\<close> be the
  text without its code fence and the whitespace around it. Where \<open>body\<close> is not valid
  JSON the parsing fails with a \<open>ValueError\<close> whose message ends with \<open>body\<close>. Where
  \<open>body\<close> is a JSON object: without a string \<open>prediction_label\<close> the parsing fails
  with a \<open>ValueError\<close> of a fixed message, and so it does with a string label and a
  \<open>confidence\<close> that is not an int, a float or a bool (these two messages do not carry
  the text); with both and a confidence that \<open>float\<close> converts, it returns the label,
  the converted confidence, the rationale if that is a string and no rationale
  otherwise, and \<open>body\<close>. The parsing returns a response only from a JSON object with a
  string label and such a confidence.
\<close>

theorem parse_candidate_cases:
  assumes "candidate_text payload = Inr text" and "body = strip_code_fence text"
  shows "(json_loads body = None \<longrightarrow>
            parse_candidate json_loads payload
              = Inl (ValueError (py ''Gemini response not valid JSON: '' @ body)))
       \<and> (\<forall>parsed label conf rat.
            json_loads body = Some parsed
          \<and> dict_get parsed (py ''prediction_label'') JNull = Inr label
          \<and> dict_get parsed (py ''confidence'') JNull = Inr conf
          \<and> dict_get parsed (py ''rationale'') JNull = Inr rat \<longrightarrow>
            (\<not> is_str label \<longrightarrow>
               parse_candidate json_loads payload
                 = Inl (ValueError (py ''Gemini JSON missing prediction_label string'')))
          \<and> (is_str label \<and> \<not> is_number conf \<longrightarrow>
               parse_candidate json_loads payload
                 = Inl (ValueError (py ''Gemini JSON missing numeric confidence'')))
          \<and> (\<forall>c. is_str label \<and> is_number conf \<and> py_float conf = Inr c \<longrightarrow>
               parse_candidate json_loads payload
                 = Inr \<lparr>prediction_label = str_value label, confidence = c,
                        rationale = (if is_str rat then Some (str_value rat) else None),
                        raw_text = body\<rparr>))
       \<and> (\<forall>r. parse_candidate json_loads payload = Inr r \<longrightarrow>
            (\<exists>parsed label conf. json_loads body = Some parsed
               \<and> dict_get parsed (py ''prediction_label'') JNull = Inr label \<and> is_str label
               \<and> dict_get parsed (py ''confidence'') JNull = Inr conf \<and> is_number conf))"
proof -
  have pc: "parse_candidate json_loads payload = parse_text json_loads body"
    using assms by (simp add: parse_candidate_text)
  have 1: "parse_candidate json_loads payload
              = Inl (ValueError (py ''Gemini response not valid JSON: '' @ body))"
    if "json_loads body = None"
    using that by (simp add: pc parse_text_def)
  have 2: "(\<not> is_str label \<longrightarrow>
               parse_candidate json_loads payload
                 = Inl (ValueError (py ''Gemini JSON missing prediction_label string'')))
          \<and> (is_str label \<and> \<not> is_number conf \<longrightarrow>
               parse_candidate json_loads payload
                 = Inl (ValueError (py ''Gemini JSON missing numeric confidence'')))
          \<and> (\<forall>c. is_str label \<and> is_number conf \<and> py_float conf = Inr c \<longrightarrow>
               parse_candidate json_loads payload
                 = Inr \<lparr>prediction_label = str_value label, confidence = c,
                        rationale = (if is_str rat then Some (str_value rat) else None),
                        raw_text = body\<rparr>)"
    if "json_loads body = Some parsed"
      and "dict_get parsed (py ''prediction_label'') JNull = Inr label"
      and "dict_get parsed (py ''confidence'') JNull = Inr conf"
      and "dict_get parsed (py ''rationale'') JNull = Inr rat"
    for parsed label conf rat
    unfolding pc parse_text_fields[of json_loads body, OF that] by simp
  have 3: "\<exists>parsed label conf. json_loads body = Some parsed
               \<and> dict_get parsed (py ''prediction_label'') JNull = Inr label \<and> is_str label
               \<and> dict_get parsed (py ''confidence'') JNull = Inr conf \<and> is_number conf"
    if "parse_candidate json_loads payload = Inr r" for r
    using that parse_text_Inr[of json_loads body r] by (simp add: pc)
  from 1 2 3 show ?thesis
    by blast
qed

theorem parse_candidate_cases_witness:
  "candidate_text (text_payload (fence @ py ''json'' @ [10] @ example_answer @ [10] @ fence))
     = Inr (fence @ py ''json'' @ [10] @ example_answer @ [10] @ fence)
   \<and> parse_candidate (map_of [(example_answer, example_answer_value)])
        (text_payload (fence @ py ''json'' @ [10] @ example_answer @ [10] @ fence))
     = Inr \<lparr>prediction_label = py ''traffic_light'', confidence = 87 / 100,
            rationale = Some (py ''Object resembles a traffic light.''), raw_text = example_answer\<rparr>
   \<and> parse_candidate (map_of [(example_answer, example_answer_value)]) (text_payload (py ''not json''))
     = Inl (ValueError (py ''Gemini response not valid JSON: not json''))"
proof -
  let ?loads = "map_of [(example_answer, example_answer_value)]"
  have l: "?loads example_answer = Some example_answer_value"
    by simp
  have d: "dict_get example_answer_value (py ''prediction_label'') JNull = Inr (JStr (py ''traffic_light''))"
    "dict_get example_answer_value (py ''confidence'') JNull = Inr (JFloat (87 / 100))"
    "dict_get example_answer_value (py ''rationale'') JNull
       = Inr (JStr (py ''Object resembles a traffic light.''))"
    by (simp_all add: example_answer_value_def)
  from parse_candidate_cases [OF fenced_answer fenced_answer_body[symmetric], of ?loads] l d
  have 1: "parse_candidate ?loads
        (text_payload (fence @ py ''json'' @ [10] @ example_answer @ [10] @ fence))
     = Inr \<lparr>prediction_label = py ''traffic_light'', confidence = 87 / 100,
            rationale = Some (py ''Object resembles a traffic light.''), raw_text = example_answer\<rparr>"
    by simp
  have c: "candidate_text (text_payload (py ''not json'')) = Inr (py ''not json'')"
    by (simp add: candidate_text_def text_payload_def strip_def isspace_def)
  have b: "py ''not json'' = strip_code_fence (py ''not json'')"
    by (simp add: strip_code_fence_def fence_def startswith_def endswith_def strip_def isspace_def)
  have n: "?loads (py ''not json'') = None"
    by (simp add: example_answer_def)
  from parse_candidate_cases [OF c b, of ?loads] n
  have 2: "parse_candidate ?loads (text_payload (py ''not json''))
     = Inl (ValueError (py ''Gemini response not valid JSON: not json''))"
    by simp
  from fenced_answer 1 2 show ?thesis
    by simp
qed

text \<open>
  C4 as stated fails: the error for a missing \<open>prediction_label\<close> does not carry the
  offending text, it is the same for two different texts.
\<close>

theorem malformed_error_text_counterexample:
  \<open>parse_candidate
      (map_of [(py ''{}'', JObj []), (py ''{"confidence": 0.87}'', JObj [(py ''confidence'', JFloat (87 / 100))])])
      (text_payload (py ''{}''))
     = Inl (ValueError (py ''Gemini JSON missing prediction_label string''))
   \<and> parse_candidate
      (map_of [(py ''{}'', JObj []), (py ''{"confidence": 0.87}'', JObj [(py ''confidence'', JFloat (87 / 100))])])
      (text_payload (py ''{"confidence": 0.87}''))
     = Inl (ValueError (py ''Gemini JSON missing prediction_label string''))
   \<and> py ''{}'' \<noteq> py ''{"confidence": 0.87}''\<close>
  by (simp add: parse_candidate_def candidate_text_def text_payload_def strip_def isspace_def
      strip_code_fence_def fence_def startswith_def endswith_def parse_text_def)

text \<open>
  C9. Where the JSON object of the response has a string \<open>prediction_label\<close> and maps
  \<open>confidence\<close> to a boolean, the parsing returns a response, with the confidence 1.0
  for \<open>true\<close> and 0.0 for \<open>false\<close>.
\<close>

theorem boolean_confidence:
  assumes "candidate_text payload = Inr text"
    and "json_loads (strip_code_fence text) = Some parsed"
    and "dict_get parsed (py ''prediction_label'') JNull = Inr (JStr label)"
    and "dict_get parsed (py ''confidence'') JNull = Inr (JBool b)"
  shows "\<exists>r. parse_candidate json_loads payload = Inr r
     \<and> prediction_label r = label \<and> confidence r = (if b then 1 else 0)"
proof -
  from dict_get_Inr[OF assms(3)] obtain kvs where "parsed = JObj kvs"
    by blast
  then obtain rat where rat: "dict_get parsed (py ''rationale'') JNull = Inr rat"
    by simp
  show ?thesis
    unfolding parse_candidate_text[OF assms(1)]
      parse_text_fields[of json_loads "strip_code_fence text", OF assms(2,3,4) rat]
    by simp
qed

theorem boolean_confidence_witness:
  \<open>\<exists>r. parse_candidate
      (map_of [(py ''{"prediction_label": "cat", "confidence": true}'',
                JObj [(py ''prediction_label'', JStr (py ''cat'')), (py ''confidence'', JBool True)])])
      (text_payload (py ''{"prediction_label": "cat", "confidence": true}'')) = Inr r
     \<and> prediction_label r = py ''cat'' \<and> confidence r = 1\<close>
proof -
  let ?text = \<open>py ''{"prediction_label": "cat", "confidence": true}''\<close>
  let ?parsed = "JObj [(py ''prediction_label'', JStr (py ''cat'')), (py ''confidence'', JBool True)]"
  have c: "candidate_text (text_payload ?text) = Inr ?text"
    by (simp add: candidate_text_def text_payload_def strip_def isspace_def)
  have b: "strip_code_fence ?text = ?text"
    by (simp add: strip_code_fence_def fence_def startswith_def endswith_def strip_def isspace_def)
  have l: "map_of [(?text, ?parsed)] (strip_code_fence ?text) = Some ?parsed"
    unfolding b by simp
  have d: "dict_get ?parsed (py ''prediction_label'') JNull = Inr (JStr (py ''cat''))"
    "dict_get ?parsed (py ''confidence'') JNull = Inr (JBool True)"
    by simp_all
  from boolean_confidence [of "text_payload ?text" ?text "map_of [(?text, ?parsed)]" ?parsed "py ''cat''" True,
      OF c l d]
  show ?thesis
    by simp
qed

subsection \<open>Retrying\<close>

lemma loop_success:
  "attempt_once execute json_loads (a + 1) = Inr r \<Longrightarrow>
     validate_loop execute json_loads n a s = (Inr r, a + 1, s)"
  by (subst validate_loop.simps) simp

lemma loop_exhausted:
  "attempt_once execute json_loads (a + 1) = Inl e \<Longrightarrow> n \<le> int (a + 1) \<Longrightarrow>
     validate_loop execute json_loads n a s = (Inl e, a + 1, s)"
  by (subst validate_loop.simps) simp

lemma loop_retry:
  "attempt_once execute json_loads (a + 1) = Inl e \<Longrightarrow> retryable e \<Longrightarrow> int (a + 1) < n \<Longrightarrow>
     validate_loop execute json_loads n a s
       = validate_loop execute json_loads n (a + 1) (s @ [backoff (a + 1)])"
  by (subst validate_loop.simps) (simp add: backoff_def)

lemma loop_retries:
  assumes "\<forall>i. a < i \<and> i \<le> a + k \<longrightarrow> (\<exists>e. attempt_once execute json_loads i = Inl e \<and> retryable e)"
    and "int (a + k) < n"
  shows "validate_loop execute json_loads n a s
       = validate_loop execute json_loads n (a + k) (s @ map backoff [a + 1 ..< a + k + 1])"
  using assms
proof (induction k arbitrary: a s)
  case 0
  show ?case by simp
next
  case (Suc k)
  from Suc.prems(1) obtain e where e: "attempt_once execute json_loads (a + 1) = Inl e" "retryable e"
  proof -
    have "a < a + 1 \<and> a + 1 \<le> a + Suc k"
      by simp
    with Suc.prems(1) show ?thesis
      using that by blast
  qed
  have lt: "int (a + 1) < n"
    using Suc.prems(2) by simp
  have fails: "\<forall>i. a + 1 < i \<and> i \<le> a + 1 + k \<longrightarrow> (\<exists>e. attempt_once execute json_loads i = Inl e \<and> retryable e)"
    using Suc.prems(1) by simp
  have "validate_loop execute json_loads n a s
          = validate_loop execute json_loads n (a + 1) (s @ [backoff (a + 1)])"
    using loop_retry[OF e lt] .
  also have "\<dots> = validate_loop execute json_loads n (a + 1 + k)
                     ((s @ [backoff (a + 1)]) @ map backoff [a + 1 + 1 ..< a + 1 + k + 1])"
    using Suc.IH[OF fails] Suc.prems(2) by simp
  also have "(s @ [backoff (a + 1)]) @ map backoff [a + 1 + 1 ..< a + 1 + k + 1]
               = s @ map backoff [a + 1 ..< a + Suc k + 1]"
  proof -
    have "[a + 1 ..< a + Suc k + 1] = (a + 1) # [a + 1 + 1 ..< a + 1 + k + 1]"
      using upt_conv_Cons[of "a + 1" "a + Suc k + 1"] by simp
    then show ?thesis
      by (simp only: list.map append_assoc append_Cons append_Nil)
  qed
  finally show ?case
    by simp
qed

lemma retry_loop:
  "(\<forall>k r. int k < max retries 1
        \<and> (\<forall>i. 1 \<le> i \<and> i \<le> k \<longrightarrow> (\<exists>e. attempt_once execute json_loads i = Inl e \<and> retryable e))
        \<and> attempt_once execute json_loads (k + 1) = Inr r \<longrightarrow>
        validate_loop execute json_loads retries 0 [] = (Inr r, k + 1, map backoff [1 ..< k + 1]))
   \<and> ((\<forall>i. 1 \<le> i \<and> int i \<le> max retries 1 \<longrightarrow>
           (\<exists>e. attempt_once execute json_loads i = Inl e \<and> retryable e)) \<longrightarrow>
        validate_loop execute json_loads retries 0 []
          = (attempt_once execute json_loads (nat (max retries 1)), nat (max retries 1),
             map backoff [1 ..< nat (max retries 1)]))"
proof -
  have 1: "validate_loop execute json_loads retries 0 [] = (Inr r, k + 1, map backoff [1 ..< k + 1])"
    if k: "int k < max retries 1"
      and f: "\<forall>i. 1 \<le> i \<and> i \<le> k \<longrightarrow> (\<exists>e. attempt_once execute json_loads i = Inl e \<and> retryable e)"
      and r: "attempt_once execute json_loads (k + 1) = Inr r"
    for k r
  proof (cases "k = 0")
    case True
    with r show ?thesis
      by (simp add: loop_success)
  next
    case False
    with k have lt: "int (0 + k) < retries"
      by simp
    from f have f': "\<forall>i. 0 < i \<and> i \<le> 0 + k \<longrightarrow> (\<exists>e. attempt_once execute json_loads i = Inl e \<and> retryable e)"
      by (simp add: Suc_le_eq)
    from loop_retries[OF f' lt, of "[]"] loop_success[OF r, of retries "map backoff [1 ..< k + 1]"]
    show ?thesis
      by simp
  qed
  have 2: "validate_loop execute json_loads retries 0 []
          = (attempt_once execute json_loads (nat (max retries 1)), nat (max retries 1),
             map backoff [1 ..< nat (max retries 1)])"
    if f: "\<forall>i. 1 \<le> i \<and> int i \<le> max retries 1 \<longrightarrow>
           (\<exists>e. attempt_once execute json_loads i = Inl e \<and> retryable e)"
  proof -
    define m where "m = nat (max retries 1) - 1"
    have m: "nat (max retries 1) = m + 1"
      by (simp add: m_def)
    have "1 \<le> m + 1 \<and> int (m + 1) \<le> max retries 1"
      using m by linarith
    with f obtain e where e: "attempt_once execute json_loads (m + 1) = Inl e"
      by blast
    have ex: "retries \<le> int (m + 1)"
      using m by linarith
    show ?thesis
    proof (cases "m = 0")
      case True
      with e ex show ?thesis
        by (simp add: m loop_exhausted)
    next
      case False
      then have lt: "int (0 + m) < retries"
        using m by linarith
      have f': "\<forall>i. 0 < i \<and> i \<le> 0 + m \<longrightarrow> (\<exists>e. attempt_once execute json_loads i = Inl e \<and> retryable e)"
      proof (intro allI impI)
        fix i
        assume i: "0 < i \<and> i \<le> 0 + m"
        then have "1 \<le> i \<and> int i \<le> max retries 1"
          using m by linarith
        with f show "\<exists>e. attempt_once execute json_loads i = Inl e \<and> retryable e"
          by blast
      qed
      from loop_retries[OF f' lt, of "[]"] loop_exhausted[OF e ex, of "map backoff [1 ..< m + 1]"] e
      show ?thesis
        by (simp add: m)
    qed
  qed
  from 1 2 show ?thesis
    by blast
qed

text \<open>
  C1, as amended. Let \<open>n\<close> be \<open>max_retries\<close>, and let the body of the request be built.
  If the first \<open>k\<close> attempts fail with a request exception or a \<open>ValueError\<close>, with
  \<open>k < max(n, 1)\<close>, and attempt \<open>k + 1\<close> succeeds, the call returns that result after
  exactly \<open>k + 1\<close> attempts, having slept \<open>min(2^(attempt-1), 30)\<close> after each failed
  attempt. If every attempt up to \<open>max(n, 1)\<close> fails in that way, the call raises after
  exactly \<open>max(n, 1)\<close> attempts; the error is the one of the last attempt, and it has
  slept after every failed attempt but the last.
\<close>

theorem retry_policy:
  assumes "build_request_body fmt v crop_bytes label guidelines = Inr body"
  shows "(\<forall>k r. int k < max (max_retries v) 1
        \<and> (\<forall>i. 1 \<le> i \<and> i \<le> k \<longrightarrow>
              (\<exists>e. attempt_once (execute body) json_loads i = Inl e \<and> retryable e))
        \<and> attempt_once (execute body) json_loads (k + 1) = Inr r \<longrightarrow>
        validate_crop fmt json_loads execute v crop_bytes label guidelines
          = (Inr r, k + 1, map backoff [1 ..< k + 1]))
   \<and> ((\<forall>i. 1 \<le> i \<and> int i \<le> max (max_retries v) 1 \<longrightarrow>
           (\<exists>e. attempt_once (execute body) json_loads i = Inl e \<and> retryable e)) \<longrightarrow>
        validate_crop fmt json_loads execute v crop_bytes label guidelines
          = (attempt_once (execute body) json_loads (nat (max (max_retries v) 1)),
             nat (max (max_retries v) 1),
             map backoff [1 ..< nat (max (max_retries v) 1)]))"
proof -
  have "validate_crop fmt json_loads execute v crop_bytes label guidelines
          = validate_loop (execute body) json_loads (max_retries v) 0 []"
    using assms by (simp add: validate_crop_def)
  then show ?thesis
    using retry_loop[of "max_retries v" "execute body" json_loads] by simp
qed

lemma body_built:
  "\<exists>body. build_request_body format_fields
      (new_validator (py ''test-key'') (py ''Is this a {expected_label}?'')\<lparr>max_retries := n\<rparr>)
      [] (py ''cat'') None = Inr body"
  by (simp add: build_request_body_def new_validator_def startswith_def)

lemma answer_parsed:
  "parse_candidate (map_of [(example_answer, example_answer_value)]) (text_payload example_answer)
     = Inr \<lparr>prediction_label = py ''traffic_light'', confidence = 87 / 100,
            rationale = Some (py ''Object resembles a traffic light.''), raw_text = example_answer\<rparr>"
proof -
  have c: "candidate_text (text_payload example_answer) = Inr example_answer"
    by (simp add: candidate_text_def text_payload_def example_answer_def strip_def isspace_def)
  have b: "strip_code_fence example_answer = example_answer"
    by (simp add: strip_code_fence_def fence_def example_answer_def startswith_def endswith_def
        strip_def isspace_def)
  have l: "map_of [(example_answer, example_answer_value)] example_answer = Some example_answer_value"
    by simp
  have d: "dict_get example_answer_value (py ''prediction_label'') JNull = Inr (JStr (py ''traffic_light''))"
    "dict_get example_answer_value (py ''confidence'') JNull = Inr (JFloat (87 / 100))"
    "dict_get example_answer_value (py ''rationale'') JNull
       = Inr (JStr (py ''Object resembles a traffic light.''))"
    by (simp_all add: example_answer_value_def)
  let ?loads = "map_of [(example_answer, example_answer_value)]"
  have "parse_candidate ?loads (text_payload example_answer)
          = parse_text ?loads (strip_code_fence example_answer)"
    by (rule parse_candidate_text[OF c])
  also have "\<dots> = parse_text ?loads example_answer"
    by (simp only: b)
  also have "\<dots> = Inr \<lparr>prediction_label = py ''traffic_light'', confidence = 87 / 100,
            rationale = Some (py ''Object resembles a traffic light.''), raw_text = example_answer\<rparr>"
    by (subst parse_text_fields[of ?loads example_answer, OF l d]) simp
  finally show ?thesis .
qed

theorem retry_policy_witness:
  "validate_crop format_fields (map_of [(example_answer, example_answer_value)]) third_time_lucky
      (new_validator (py ''test-key'') (py ''Is this a {expected_label}?'')\<lparr>max_retries := 3\<rparr>)
      [] (py ''cat'') None
     = (Inr \<lparr>prediction_label = py ''traffic_light'', confidence = 87 / 100,
              rationale = Some (py ''Object resembles a traffic light.''), raw_text = example_answer\<rparr>,
        3, [1, 2])
   \<and> validate_crop format_fields (map_of [(example_answer, example_answer_value)]) always_timeout
      (new_validator (py ''test-key'') (py ''Is this a {expected_label}?'')\<lparr>max_retries := 3\<rparr>)
      [] (py ''cat'') None
     = (Inl (RequestException (py ''timeout'')), 3, [1, 2])"
proof -
  let ?v = "new_validator (py ''test-key'') (py ''Is this a {expected_label}?'')\<lparr>max_retries := 3\<rparr>"
  let ?loads = "map_of [(example_answer, example_answer_value)]"
  let ?r = "\<lparr>prediction_label = py ''traffic_light'', confidence = 87 / 100,
              rationale = Some (py ''Object resembles a traffic light.''), raw_text = example_answer\<rparr>"
  obtain body where b: "build_request_body format_fields ?v [] (py ''cat'') None = Inr body"
    using body_built[of 3] by blast
  have m: "max (max_retries ?v) 1 = 3"
    by (simp add: new_validator_def)
  have bo: "map backoff [1 ..< 2 + 1] = [1, 2]" "map backoff [1 ..< nat 3] = [1, 2]"
    by (simp_all add: backoff_def upt_conv_Cons)
  have f: "\<forall>i. 1 \<le> i \<and> i \<le> 2 \<longrightarrow>
             (\<exists>e. attempt_once (third_time_lucky body) ?loads i = Inl e \<and> retryable e)"
    by (simp add: attempt_once_def third_time_lucky_def)
  have s: "attempt_once (third_time_lucky body) ?loads (2 + 1) = Inr ?r"
  proof -
    have "third_time_lucky body (2 + 1) = Inr (text_payload example_answer)"
      by (simp add: third_time_lucky_def)
    then show ?thesis
      by (simp only: attempt_once_def and_then.simps answer_parsed)
  qed
  have a: "\<forall>i. 1 \<le> i \<and> int i \<le> max (max_retries ?v) 1 \<longrightarrow>
             (\<exists>e. attempt_once (always_timeout body) ?loads i = Inl e \<and> retryable e)"
    by (simp add: attempt_once_def always_timeout_def)
  have e: "attempt_once (always_timeout body) ?loads (nat 3) = Inl (RequestException (py ''timeout''))"
    by (simp add: attempt_once_def always_timeout_def)
  have "validate_crop format_fields ?loads third_time_lucky ?v [] (py ''cat'') None
          = (Inr ?r, 2 + 1, map backoff [1 ..< 2 + 1])"
  proof (rule retry_policy [OF b, of third_time_lucky ?loads, THEN conjunct1, rule_format, of 2 ?r],
      intro conjI)
    show "int 2 < max (max_retries ?v) 1"
      by (simp only: m)
    show "\<forall>i. 1 \<le> i \<and> i \<le> 2 \<longrightarrow>
             (\<exists>e. attempt_once (third_time_lucky body) ?loads i = Inl e \<and> retryable e)"
      by (rule f)
    show "attempt_once (third_time_lucky body) ?loads (2 + 1) = Inr ?r"
      by (rule s)
  qed
  then have 1: "validate_crop format_fields ?loads third_time_lucky ?v [] (py ''cat'') None
          = (Inr ?r, 3, [1, 2])"
    by (simp only: bo) simp
  have "validate_crop format_fields ?loads always_timeout ?v [] (py ''cat'') None
          = (attempt_once (always_timeout body) ?loads (nat (max (max_retries ?v) 1)),
             nat (max (max_retries ?v) 1), map backoff [1 ..< nat (max (max_retries ?v) 1)])"
    by (rule retry_policy [OF b, of always_timeout ?loads, THEN conjunct2, THEN mp, OF a])
  then have 2: "validate_crop format_fields ?loads always_timeout ?v [] (py ''cat'') None
          = (Inl (RequestException (py ''timeout'')), 3, [1, 2])"
    by (simp only: m e bo) simp
  from 1 2 show ?thesis
    by (rule conjI)
qed

text \<open>
  C1 as stated fails for \<open>max_retries = 0\<close>: the call makes one attempt before it raises,
  not none.
\<close>

theorem zero_retries_counterexample:
  "validate_crop format_fields (map_of [(example_answer, example_answer_value)]) always_timeout
      (new_validator (py ''test-key'') (py ''Is this a {expected_label}?'')\<lparr>max_retries := 0\<rparr>)
      [] (py ''cat'') None
     = (Inl (RequestException (py ''timeout'')), 1, [])
   \<and> max_retries (new_validator (py ''test-key'') (py ''Is this a {expected_label}?'')\<lparr>max_retries := 0\<rparr>) = 0"
proof -
  let ?v = "new_validator (py ''test-key'') (py ''Is this a {expected_label}?'')\<lparr>max_retries := 0\<rparr>"
  obtain body where b: "build_request_body format_fields ?v [] (py ''cat'') None = Inr body"
    using body_built[of 0] by blast
  have e: "attempt_once (always_timeout body) (map_of [(example_answer, example_answer_value)]) (0 + 1)
             = Inl (RequestException (py ''timeout''))"
    by (simp add: attempt_once_def always_timeout_def)
  have m: "max_retries ?v = 0"
    by (simp add: new_validator_def)
  have "validate_crop format_fields (map_of [(example_answer, example_answer_value)]) always_timeout
          ?v [] (py ''cat'') None
        = validate_loop (always_timeout body) (map_of [(example_answer, example_answer_value)]) 0 0 []"
    by (simp only: validate_crop_def b m sum.case)
  with loop_exhausted[OF e, of 0 "[]"] m show ?thesis
    by simp
qed

end
